theory Spec2Isabelle
  imports Main "HOL-Library.Sublist" "HOL-Library.Multiset"
begin

section \<open>JavaScript values\<close>

text \<open>
  Frontmatter values are dynamically typed.  The constructors below are the values the
  build scripts distinguish: \<open>undefined\<close> (a missing property), \<open>null\<close>, booleans,
  numbers, strings and \<open>Date\<close> objects (YAML timestamps are delivered as \<open>Date\<close>s).
  A number \<open>JNum n\<close> is an integral Number; a \<open>Date\<close> carries its time value in
  milliseconds since the epoch, \<open>None\<close> being the time value \<open>NaN\<close> of an invalid date.
  Strings are lists of code units below 256.
\<close>

datatype jsval =
    JUndefined
  | JNull
  | JBool bool
  | JNum int
  | JStr string
  | JDate "int option"

text \<open>\<open>ToBoolean\<close>: what \<open>!value\<close> and \<open>a || b\<close> test.  Every object, hence every
  \<open>Date\<close>, is truthy.\<close>

fun truthy :: "jsval \<Rightarrow> bool" where
  "truthy JUndefined = False"
| "truthy JNull = False"
| "truthy (JBool b) = b"
| "truthy (JNum n) = (n \<noteq> 0)"
| "truthy (JStr s) = (s \<noteq> [])"
| "truthy (JDate t) = True"

text \<open>\<open>a || b\<close>\<close>

definition js_or :: "jsval \<Rightarrow> jsval \<Rightarrow> jsval" where
  "js_or a b = (if truthy a then a else b)"

text \<open>\<open>a === true\<close>\<close>

definition strictly_true :: "jsval \<Rightarrow> bool" where
  "strictly_true a = (a = JBool True)"

text \<open>Property access \<open>data.key\<close> on a plain object: a missing key reads \<open>undefined\<close>.\<close>

definition property :: "(string \<rightharpoonup> jsval) \<Rightarrow> string \<Rightarrow> jsval" where
  "property obj k = (case obj k of None \<Rightarrow> JUndefined | Some v \<Rightarrow> v)"

section \<open>Errors, the file system and the library functions\<close>

text \<open>Exceptions thrown by the synchronous \<open>fs\<close> calls and by the frontmatter library.
  Nothing in the scripts catches them: an exception ends the run.\<close>

datatype error =
    ENOENT string
  | EISDIR string
  | ENOTDIR string
  | YAMLException string

text \<open>
  The disk: file contents by path, the set of directories, and for a directory the
  names \<open>readdirSync\<close> returns, in the order it returns them.
\<close>

record filesystem =
  files :: "string \<rightharpoonup> string"
  dirs :: "string set"
  listing :: "string \<Rightarrow> string list"

definition existsSync :: "filesystem \<Rightarrow> string \<Rightarrow> bool" where
  "existsSync fs p = (files fs p \<noteq> None \<or> p \<in> dirs fs)"

definition readFileSync :: "filesystem \<Rightarrow> string \<Rightarrow> error + string" where
  "readFileSync fs p =
     (case files fs p of
        Some c \<Rightarrow> Inr c
      | None \<Rightarrow> if p \<in> dirs fs then Inl (EISDIR p) else Inl (ENOENT p))"

text \<open>What \<open>matter(content)\<close> returns: the parsed header and the text after it.\<close>

record matter_result =
  data :: "string \<rightharpoonup> jsval"
  content :: "string"

text \<open>
  The functions the scripts call in libraries and in the JavaScript runtime, whose code
  is not part of the repository: \<open>matter\<close> (gray-matter; it throws on a header that is
  not YAML), \<open>marked.parse\<close>, \<open>Date.parse\<close> (\<open>None\<close> is \<open>NaN\<close>) and
  \<open>Date.prototype.toString\<close> on a valid time value.  Every theorem below holds for all
  of them.
\<close>

record runtime =
  matter :: "string \<Rightarrow> error + matter_result"
  marked_parse :: "string \<Rightarrow> string"
  Date_parse :: "string \<Rightarrow> int option"
  Date_toString :: "int \<Rightarrow> string"

section \<open>Paths: the last component\<close>

text \<open>\<open>path.basename(p, ext)\<close> on a path that does not end in a separator (the paths
  the build passes are a directory joined with a file name): the text after the last
  \<open>/\<close>, without the suffix \<open>ext\<close> unless that suffix is the whole name.\<close>

definition last_component :: "string \<Rightarrow> string" where
  "last_component p = rev (takeWhile (\<lambda>c. c \<noteq> CHR ''/'') (rev p))"

definition basename :: "string \<Rightarrow> string \<Rightarrow> string" where
  "basename p ext =
     (if ext \<noteq> [] \<and> p = ext then []
      else let b = last_component p
           in if ext \<noteq> [] \<and> b \<noteq> ext \<and> suffix ext b
              then take (length b - length ext) b
              else b)"

section \<open>Markdown processing\<close>

subsection \<open>The code block renderer\<close>

text \<open>\<open>s.replace(/c/g, r)\<close> for a pattern that is one literal character and a
  replacement string without \<open>$\<close>.\<close>

definition replace_char :: "char \<Rightarrow> string \<Rightarrow> string \<Rightarrow> string" where
  "replace_char c r s = concat (map (\<lambda>x. if x = c then r else [x]) s)"

text \<open>The three replacements of \<open>renderer.code\<close>, in the order of the source.\<close>

definition escapedCode :: "string \<Rightarrow> string" where
  "escapedCode code =
     replace_char (CHR ''>'') ''&gt;''
       (replace_char (CHR ''<'') ''&lt;''
         (replace_char (CHR ''&'') ''&amp;'' code))"

text \<open>\<open>renderer.code(code, language)\<close>; \<open>None\<close> is an undefined language.\<close>

definition renderer_code :: "string \<Rightarrow> string option \<Rightarrow> string" where
  \<open>renderer_code code language =
     (let langClass =
            (case language of
               None \<Rightarrow> []
             | Some l \<Rightarrow> if l \<noteq> [] then '' class="language-'' @ l @ ''"'' else [])
      in ''<pre><code'' @ langClass @ ''>'' @ escapedCode code @ ''</code></pre>\<newline>'')\<close>

text \<open>The entity encoding the specification describes, one character at a time.\<close>

fun html_entity :: "char \<Rightarrow> string" where
  "html_entity c =
     (if c = CHR ''&'' then ''&amp;''
      else if c = CHR ''<'' then ''&lt;''
      else if c = CHR ''>'' then ''&gt;''
      else [c])"

subsection \<open>Documents\<close>

record document =
  title :: jsval
  subtitle :: jsval
  description :: jsval
  date :: jsval
  template :: jsval
  usesMath :: bool
  usesCode :: bool
  body :: string
  slug :: string

definition parseDocument :: "runtime \<Rightarrow> filesystem \<Rightarrow> string \<Rightarrow> error + document" where
  "parseDocument rt fs filePath =
     (case readFileSync fs filePath of
        Inl e \<Rightarrow> Inl e
      | Inr raw \<Rightarrow>
          (case matter rt raw of
             Inl e \<Rightarrow> Inl e
           | Inr m \<Rightarrow>
               Inr \<lparr> title = js_or (property (data m) ''title'') (JStr ''Untitled''),
                     subtitle = js_or (property (data m) ''subtitle'') (JStr []),
                     description = js_or (property (data m) ''description'') (JStr []),
                     date = js_or (property (data m) ''date'') (JStr []),
                     template = js_or (property (data m) ''template'') (JStr ''post''),
                     usesMath = strictly_true (property (data m) ''uses_math''),
                     usesCode = strictly_true (property (data m) ''uses_code''),
                     body = marked_parse rt (content m),
                     slug = basename filePath ''.md'' \<rparr>))"

section \<open>Template engine\<close>

text \<open>
  \<open>renderTemplate\<close> builds, for each entry of \<open>values\<close>, the regular expression
  \<open>\{\{\s*KEY\s*\}\}\<close> with the flag \<open>g\<close> and replaces every match by the value.
  The key is spliced into the pattern as it is.  Every key the scripts pass is made of
  letters, digits and \<open>_\<close> (\<open>plain_key\<close>), for which the pattern reads: two opening
  braces, any white space, the key, any white space, two closing braces; the model is
  that pattern.  \<open>is_space\<close> is the class \<open>\s\<close> on code units below 256.
\<close>

definition is_space :: "char \<Rightarrow> bool" where
  "is_space c = (of_char c \<in> {9, 10, 11, 12, 13, 32, 160 :: nat})"

definition word_char :: "char \<Rightarrow> bool" where
  "word_char c =
     (let n = of_char c :: nat
      in (48 \<le> n \<and> n \<le> 57) \<or> (65 \<le> n \<and> n \<le> 90) \<or> (97 \<le> n \<and> n \<le> 122) \<or> n = 95)"

definition plain_key :: "string \<Rightarrow> bool" where
  "plain_key key = list_all word_char key"

text \<open>\<open>strip_prefix p s\<close> is the rest of \<open>s\<close> after the literal \<open>p\<close>, when \<open>s\<close> starts
  with it.\<close>

fun strip_prefix :: "string \<Rightarrow> string \<Rightarrow> string option" where
  "strip_prefix [] s = Some s"
| "strip_prefix (p # ps) [] = None"
| "strip_prefix (p # ps) (c # cs) = (if p = c then strip_prefix ps cs else None)"

text \<open>A match of the pattern at the start of \<open>s\<close>, returning the text after the
  match.  Neither the first character of a plain key nor a closing brace is white space,
  so the greedy \<open>\s*\<close> takes the whole run of white space and never backtracks.\<close>

definition match_placeholder :: "string \<Rightarrow> string \<Rightarrow> string option" where
  "match_placeholder key s =
     (case strip_prefix ''{{'' s of
        None \<Rightarrow> None
      | Some s1 \<Rightarrow>
          (case strip_prefix key (dropWhile is_space s1) of
             None \<Rightarrow> None
           | Some s2 \<Rightarrow> strip_prefix ''}}'' (dropWhile is_space s2)))"

lemma strip_prefix_Some: "strip_prefix p s = Some r \<longleftrightarrow> s = p @ r"
  by (induction p s rule: strip_prefix.induct) auto

lemma match_placeholder_shape:
  assumes "match_placeholder key s = Some rest"
  shows "\<exists>w1 w2. s = ''{{'' @ w1 @ key @ w2 @ ''}}'' @ rest \<and> list_all is_space w1 \<and> list_all is_space w2"
proof -
  from assms obtain s1 s2 where a: "strip_prefix ''{{'' s = Some s1"
    and b: "strip_prefix key (dropWhile is_space s1) = Some s2"
    and c: "strip_prefix ''}}'' (dropWhile is_space s2) = Some rest"
    by (auto simp: match_placeholder_def split: option.splits)
  have 1: "s = ''{{'' @ s1" using a by (simp only: strip_prefix_Some)
  have 2: "dropWhile is_space s1 = key @ s2" using b by (simp only: strip_prefix_Some)
  have 3: "dropWhile is_space s2 = ''}}'' @ rest" using c by (simp only: strip_prefix_Some)
  have "s1 = takeWhile is_space s1 @ key @ s2" using 2 takeWhile_dropWhile_id[of is_space s1] by simp
  moreover have "s2 = takeWhile is_space s2 @ ''}}'' @ rest" using 3 takeWhile_dropWhile_id[of is_space s2] by simp
  ultimately have "s = ''{{'' @ takeWhile is_space s1 @ key @ takeWhile is_space s2 @ ''}}'' @ rest"
    using 1 by simp
  moreover have "list_all is_space (takeWhile is_space s1)" "list_all is_space (takeWhile is_space s2)"
    by (auto simp: list_all_iff dest: set_takeWhileD)
  ultimately show ?thesis by blast
qed

lemma match_placeholder_shorter:
  "match_placeholder key s = Some rest \<Longrightarrow> length rest < length s"
  by (drule match_placeholder_shape) auto

text \<open>\<open>result.replace(placeholder, () => value)\<close>: the scan goes left to right;
  at a match the value returned by the function is appended as it is and the scan
  resumes after the match, elsewhere one character is copied.\<close>

function replace_placeholder :: "string \<Rightarrow> string \<Rightarrow> string \<Rightarrow> string" where
  "replace_placeholder key val [] = []"
| "replace_placeholder key val (c # cs) =
     (case match_placeholder key (c # cs) of
        Some rest \<Rightarrow> val @ replace_placeholder key val rest
      | None \<Rightarrow> c # replace_placeholder key val cs)"
  by pat_completeness auto
termination
  by (relation "measure (\<lambda>(key, val, s). length s)") (auto dest: match_placeholder_shorter)

text \<open>The loop over \<open>Object.entries(values)\<close>; the list is the entries in that
  order.\<close>

definition renderTemplate :: "string \<Rightarrow> (string \<times> string) list \<Rightarrow> string" where
  "renderTemplate tmpl vals =
     foldl (\<lambda>result (key, val). replace_placeholder key val result) tmpl vals"


section \<open>Dates\<close>

subsection \<open>The time functions of the language\<close>

text \<open>
  A time value is a number of milliseconds since 1970-01-01T00:00:00Z.  The functions
  below are the day and year arithmetic that the language standard gives for the
  \<open>getUTC...\<close> methods: \<open>Day\<close>, \<open>DaysInYear\<close>, \<open>DayFromYear\<close>, the month and the day of
  the month from the day within the year, and the week day.  The standard defines the
  year of a day as the largest year that starts on or before it; \<open>YearFromDay\<close> computes
  it from an estimate that is off by at most one (\<open>YearFromDay_bounds\<close> below).
\<close>

definition msPerDay :: int where
  "msPerDay = 86400000"

definition Day :: "int \<Rightarrow> int" where
  "Day t = t div msPerDay"

definition DaysInYear :: "int \<Rightarrow> int" where
  "DaysInYear y =
     (if y mod 4 \<noteq> 0 then 365
      else if y mod 100 \<noteq> 0 then 366
      else if y mod 400 \<noteq> 0 then 365
      else 366)"

definition DayFromYear :: "int \<Rightarrow> int" where
  "DayFromYear y =
     365 * (y - 1970) + (y - 1969) div 4 - (y - 1901) div 100 + (y - 1601) div 400"

definition YearFromDay :: "int \<Rightarrow> int" where
  "YearFromDay d =
     (let y = 1970 + (400 * d) div 146097
      in if d < DayFromYear y then y - 1
         else if DayFromYear (y + 1) \<le> d then y + 1
         else y)"

definition InLeapYear :: "int \<Rightarrow> int" where
  "InLeapYear d = (if DaysInYear (YearFromDay d) = 366 then 1 else 0)"

definition DayWithinYear :: "int \<Rightarrow> int" where
  "DayWithinYear d = d - DayFromYear (YearFromDay d)"

definition MonthFromDay :: "int \<Rightarrow> int" where
  "MonthFromDay d =
     (let w = DayWithinYear d; l = InLeapYear d
      in if w < 31 then 0
         else if w < 59 + l then 1
         else if w < 90 + l then 2
         else if w < 120 + l then 3
         else if w < 151 + l then 4
         else if w < 181 + l then 5
         else if w < 212 + l then 6
         else if w < 243 + l then 7
         else if w < 273 + l then 8
         else if w < 304 + l then 9
         else if w < 334 + l then 10
         else 11)"

definition DateFromDay :: "int \<Rightarrow> int" where
  "DateFromDay d =
     (let w = DayWithinYear d; l = InLeapYear d; m = MonthFromDay d
      in if m = 0 then w + 1
         else if m = 1 then w - 30
         else if m = 2 then w - 58 - l
         else if m = 3 then w - 89 - l
         else if m = 4 then w - 119 - l
         else if m = 5 then w - 150 - l
         else if m = 6 then w - 180 - l
         else if m = 7 then w - 211 - l
         else if m = 8 then w - 242 - l
         else if m = 9 then w - 272 - l
         else if m = 10 then w - 303 - l
         else w - 333 - l)"

definition WeekDay :: "int \<Rightarrow> int" where
  "WeekDay t = (Day t + 4) mod 7"

definition getUTCFullYear :: "int \<Rightarrow> int" where
  "getUTCFullYear t = YearFromDay (Day t)"

definition getUTCMonth :: "int \<Rightarrow> int" where
  "getUTCMonth t = MonthFromDay (Day t)"

definition getUTCDate :: "int \<Rightarrow> int" where
  "getUTCDate t = DateFromDay (Day t)"

definition getUTCDay :: "int \<Rightarrow> int" where
  "getUTCDay t = WeekDay t"

subsection \<open>Conversions\<close>

text \<open>The decimal digits of a number, as \<open>String(n)\<close> and a template literal write an
  integer that a Number holds exactly and that is below \<open>10^21\<close> in magnitude (larger
  numbers are written with an exponent; the day of the month and the year are far
  below).\<close>

definition digit_char :: "nat \<Rightarrow> char" where
  "digit_char n = ''0123456789'' ! (n mod 10)"

function decimal :: "nat \<Rightarrow> string" where
  "decimal n = (if n < 10 then [digit_char n] else decimal (n div 10) @ [digit_char n])"
  by pat_completeness auto
termination
  by (relation "measure id") auto

declare decimal.simps [simp del]

definition number_string :: "int \<Rightarrow> string" where
  "number_string n = (if n < 0 then CHR ''-'' # decimal (nat (- n)) else decimal (nat n))"

text \<open>\<open>String(value)\<close>\<close>

fun js_String :: "runtime \<Rightarrow> jsval \<Rightarrow> string" where
  "js_String rt JUndefined = ''undefined''"
| "js_String rt JNull = ''null''"
| "js_String rt (JBool b) = (if b then ''true'' else ''false'')"
| "js_String rt (JNum n) = number_string n"
| "js_String rt (JStr s) = s"
| "js_String rt (JDate None) = ''Invalid Date''"
| "js_String rt (JDate (Some t)) = Date_toString rt t"

text \<open>The time value of \<open>new Date(value)\<close>: a \<open>Date\<close> is copied, a string is parsed, any
  other value is converted to a number and clipped to the range of time values.\<close>

definition TimeClip :: "int \<Rightarrow> int option" where
  "TimeClip n = (if \<bar>n\<bar> \<le> 8640000000000000 then Some n else None)"

fun new_Date :: "runtime \<Rightarrow> jsval \<Rightarrow> int option" where
  "new_Date rt (JDate t) = t"
| "new_Date rt (JStr s) = Date_parse rt s"
| "new_Date rt (JNum n) = TimeClip n"
| "new_Date rt (JBool b) = Some (if b then 1 else 0)"
| "new_Date rt JNull = Some 0"
| "new_Date rt JUndefined = None"

subsection \<open>The date label of the index\<close>

text \<open>\<open>xs[i] || ''\<close> on an array of non-empty strings\<close>

definition array_get :: "string list \<Rightarrow> int \<Rightarrow> string" where
  "array_get xs i = (if 0 \<le> i \<and> nat i < length xs then xs ! nat i else [])"

definition weekdays :: "string list" where
  "weekdays = [''Sun'', ''Mon'', ''Tue'', ''Wed'', ''Thu'', ''Fri'', ''Sat'']"

definition months :: "string list" where
  "months = [''Jan'', ''Feb'', ''Mar'', ''Apr'', ''May'', ''Jun'',
             ''Jul'', ''Aug'', ''Sep'', ''Oct'', ''Nov'', ''Dec'']"

text \<open>\<open>s.trim()\<close>\<close>

definition js_trim :: "string \<Rightarrow> string" where
  "js_trim s = rev (dropWhile is_space (rev (dropWhile is_space s)))"

text \<open>\<open>s.slice(-2)\<close>\<close>

definition slice_last2 :: "string \<Rightarrow> string" where
  "slice_last2 s = drop (length s - 2) s"

text \<open>The last five statements of \<open>formatPostDate\<close>, on the time value of a valid
  date.\<close>

definition date_label :: "int \<Rightarrow> string" where
  "date_label t =
     (let weekday = array_get weekdays (getUTCDay t);
          month = array_get months (getUTCMonth t);
          day = getUTCDate t;
          year = slice_last2 (number_string (getUTCFullYear t))
      in js_trim (weekday @ '' '' @ month @ '' '' @ number_string day
                    @ '' '' @ [CHR 0x27] @ year))"

text \<open>\<open>formatPostDate(value)\<close>: a falsy value gives the empty string; a \<open>Date\<close> is used
  as it is, and gives the empty string when it is invalid; any other value goes through
  \<open>new Date\<close>, and is returned as \<open>String(value)\<close> when that date is invalid.\<close>

definition formatPostDate :: "runtime \<Rightarrow> jsval \<Rightarrow> string" where
  "formatPostDate rt v =
     (if \<not> truthy v then []
      else case v of
             JDate None \<Rightarrow> []
           | JDate (Some t) \<Rightarrow> date_label t
           | _ \<Rightarrow> (case new_Date rt v of
                      None \<Rightarrow> js_String rt v
                    | Some t \<Rightarrow> date_label t))"

subsection \<open>The order of the index\<close>

text \<open>\<open>new Date(a.date || 0)\<close>, as a time value\<close>

definition post_time :: "runtime \<Rightarrow> document \<Rightarrow> int option" where
  "post_time rt a = new_Date rt (js_or (date a) (JNum 0))"

text \<open>The comparison function \<open>(a, b) => dateB - dateA\<close>; \<open>None\<close> is \<open>NaN\<close>, the
  difference when one of the two dates is invalid.\<close>

definition compare_posts :: "runtime \<Rightarrow> document \<Rightarrow> document \<Rightarrow> int option" where
  "compare_posts rt a b =
     (case (post_time rt a, post_time rt b) of
        (Some dateA, Some dateB) \<Rightarrow> Some (dateB - dateA)
      | _ \<Rightarrow> None)"

text \<open>
  \<open>Array.prototype.sort\<close> with a comparison function.  The language reads a result
  \<open>NaN\<close> of the comparison as \<open>0\<close> and requires the sort to be stable; for a consistent
  comparison function the result is the one stable order.  The model is the stable
  insertion sort: each element, in array order, goes before the first element of the
  sorted part it compares below.  Where the comparison function is not consistent (it
  is not when it returns \<open>NaN\<close>) the language leaves the order to the implementation.
\<close>

definition sort_compare :: "('a \<Rightarrow> 'a \<Rightarrow> int option) \<Rightarrow> 'a \<Rightarrow> 'a \<Rightarrow> int" where
  "sort_compare comparefn x y = (case comparefn x y of None \<Rightarrow> 0 | Some v \<Rightarrow> v)"

fun insert_sorted :: "('a \<Rightarrow> 'a \<Rightarrow> int option) \<Rightarrow> 'a \<Rightarrow> 'a list \<Rightarrow> 'a list" where
  "insert_sorted comparefn x [] = [x]"
| "insert_sorted comparefn x (y # ys) =
     (if sort_compare comparefn x y < 0 then x # y # ys
      else y # insert_sorted comparefn x ys)"

definition array_sort :: "('a \<Rightarrow> 'a \<Rightarrow> int option) \<Rightarrow> 'a list \<Rightarrow> 'a list" where
  "array_sort comparefn xs = foldl (\<lambda>sorted x. insert_sorted comparefn x sorted) [] xs"

text \<open>\<open>sortedPosts\<close> of \<open>renderIndex\<close>\<close>

definition sortedPosts :: "runtime \<Rightarrow> document list \<Rightarrow> document list" where
  "sortedPosts rt posts = array_sort (compare_posts rt) posts"

text \<open>The order the specification asks of two neighbours of the index: both have a
  time value and the first is not older than the second.\<close>

definition newer_first :: "runtime \<Rightarrow> document \<Rightarrow> document \<Rightarrow> bool" where
  "newer_first rt a b =
     (case (post_time rt a, post_time rt b) of
        (Some ta, Some tb) \<Rightarrow> tb \<le> ta
      | _ \<Rightarrow> False)"

section \<open>Paths\<close>

text \<open>
  The functions of the \<open>path\<close> module of the runtime that the scripts call, on a POSIX
  system (the separator is \<open>/\<close>).  A path is split at every separator; the empty
  segments and the segments \<open>.\<close> are dropped, a segment \<open>..\<close> removes the segment before
  it, and is kept only in a relative path that has nothing left to remove.
\<close>

fun split_slash :: "string \<Rightarrow> string list" where
  "split_slash [] = [[]]"
| "split_slash (c # cs) =
     (if c = CHR ''/'' then [] # split_slash cs
      else (case split_slash cs of
              w # ws \<Rightarrow> (c # w) # ws
            | [] \<Rightarrow> [[c]]))"

fun join_slash :: "string list \<Rightarrow> string" where
  "join_slash [] = []"
| "join_slash [x] = x"
| "join_slash (x # y # ys) = x @ CHR ''/'' # join_slash (y # ys)"

text \<open>One segment of \<open>normalizeString\<close>; \<open>res\<close> is the segments kept so far, the last
  one first.\<close>

definition norm_step :: "bool \<Rightarrow> string list \<Rightarrow> string \<Rightarrow> string list" where
  "norm_step allowAboveRoot res seg =
     (if seg = [] \<or> seg = ''.'' then res
      else if seg = ''..'' then
        (case res of
           lastSeg # rest \<Rightarrow>
             if lastSeg \<noteq> ''..'' then rest
             else if allowAboveRoot then ''..'' # res else res
         | [] \<Rightarrow> if allowAboveRoot then [''..''] else [])
      else seg # res)"

definition normalizeString :: "string \<Rightarrow> bool \<Rightarrow> string" where
  "normalizeString p allowAboveRoot =
     join_slash (rev (foldl (norm_step allowAboveRoot) [] (split_slash p)))"

text \<open>\<open>path.normalize\<close>\<close>

definition normalize :: "string \<Rightarrow> string" where
  "normalize p =
     (if p = [] then ''.''
      else let isAbsolute = (hd p = CHR ''/'');
               trailingSeparator = (last p = CHR ''/'');
               q = normalizeString p (\<not> isAbsolute)
           in if q = [] then (if isAbsolute then ''/'' else if trailingSeparator then ''./'' else ''.'')
              else let q' = (if trailingSeparator then q @ ''/'' else q)
                   in if isAbsolute then CHR ''/'' # q' else q')"

text \<open>\<open>path.join\<close>: the non-empty arguments, joined by the separator and normalized\<close>

definition path_join :: "string list \<Rightarrow> string" where
  "path_join args =
     (let parts = filter (\<lambda>a. a \<noteq> []) args
      in if parts = [] then ''.'' else normalize (join_slash parts))"

text \<open>\<open>path.extname\<close>: from the last dot of the last component, unless the component
  has no dot, starts with its only dot, or is \<open>..\<close>\<close>

definition extname :: "string \<Rightarrow> string" where
  "extname p =
     (let b = last_component (rev (dropWhile (\<lambda>c. c = CHR ''/'') (rev p)));
          ext = rev (takeWhile (\<lambda>c. c \<noteq> CHR ''.'') (rev b));
          stem = take (length b - length ext - 1) b
      in if CHR ''.'' \<notin> set b \<or> stem = [] \<or> b = ''..'' then []
         else CHR ''.'' # ext)"

text \<open>A segment that normalization keeps as it is, and the non-empty segments of a
  path.\<close>

definition clean_seg :: "string \<Rightarrow> bool" where
  "clean_seg s = (s \<noteq> [] \<and> s \<noteq> ''.'' \<and> s \<noteq> ''..'' \<and> CHR ''/'' \<notin> set s)"

definition segments :: "string \<Rightarrow> string list" where
  "segments p = filter (\<lambda>s. s \<noteq> []) (split_slash p)"

section \<open>The preview server\<close>

text \<open>\<open>s.replace(/^(\.\.[\/\\])+/, '')\<close>: the leading run of \<open>../\<close> and \<open>..\\<close> is
  removed.\<close>

fun strip_dotdot :: "string \<Rightarrow> string" where
  "strip_dotdot (a # b # c # s) =
     (if a = CHR ''.'' \<and> b = CHR ''.'' \<and> (c = CHR ''/'' \<or> c = CHR 0x5C)
      then strip_dotdot s else a # b # c # s)"
| "strip_dotdot s = s"


text \<open>\<open>toLowerCase\<close> on code units below 256: the letters \<open>A\<close> to \<open>Z\<close> and the
  capital letters of Latin-1\<close>

definition toLowerCase :: "string \<Rightarrow> string" where
  "toLowerCase s =
     map (\<lambda>c. let n = (of_char c :: nat)
              in if (65 \<le> n \<and> n \<le> 90) \<or> (192 \<le> n \<and> n \<le> 222 \<and> n \<noteq> 215)
                 then char_of (n + 32) else c) s"

definition MIME_TYPES :: "(string \<times> string) list" where
  "MIME_TYPES =
     [(''.html'', ''text/html; charset=utf-8''),
      (''.css'', ''text/css; charset=utf-8''),
      (''.js'', ''application/javascript; charset=utf-8''),
      (''.json'', ''application/json; charset=utf-8''),
      (''.png'', ''image/png''),
      (''.jpg'', ''image/jpeg''),
      (''.jpeg'', ''image/jpeg''),
      (''.gif'', ''image/gif''),
      (''.svg'', ''image/svg+xml''),
      (''.ico'', ''image/x-icon''),
      (''.woff'', ''font/woff''),
      (''.woff2'', ''font/woff2''),
      (''.ttf'', ''font/ttf'')]"

definition getMimeType :: "string \<Rightarrow> string" where
  "getMimeType filePath =
     (case map_of MIME_TYPES (toLowerCase (extname filePath)) of
        Some t \<Rightarrow> t
      | None \<Rightarrow> ''application/octet-stream'')"

text \<open>
  What the server reads of the disk: \<open>fs.stat\<close> (an error, or whether the path is a
  directory), \<open>fs.readFile\<close> and \<open>fs.existsSync\<close>.  The request handler calls them
  one after the other, each from the callback of the one before.
\<close>

record disk =
  disk_stat :: "string \<Rightarrow> error + bool"
  disk_readFile :: "string \<Rightarrow> error + string"
  disk_exists :: "string \<Rightarrow> bool"

fun is_ENOENT :: "error \<Rightarrow> bool" where
  "is_ENOENT (ENOENT p) = True"
| "is_ENOENT e = False"

record response =
  status :: nat
  contentType :: string
  responseBody :: string

text \<open>\<open>handleRequest\<close>, from the path name of the parsed request URL to the response;
  \<open>publicDir\<close> is the constant \<open>PUBLIC_DIR\<close> of the server script.\<close>

definition handleRequest :: "string \<Rightarrow> disk \<Rightarrow> string \<Rightarrow> response" where
  "handleRequest publicDir d url_pathname =
     (let pathname = (if url_pathname = ''/'' then ''/index.html'' else url_pathname);
          safePath = strip_dotdot (normalize pathname);
          filePath = path_join [publicDir, safePath]
      in if \<not> prefix publicDir filePath
         then \<lparr> status = 403, contentType = ''text/plain'', responseBody = ''Forbidden'' \<rparr>
         else
           let finalPath =
                 (case disk_stat d filePath of
                    Inr isDirectory \<Rightarrow>
                      if isDirectory then path_join [filePath, ''index.html''] else filePath
                  | Inl err \<Rightarrow>
                      if is_ENOENT err \<and> extname filePath = []
                      then let potentialIdx = path_join [filePath, ''index.html'']
                           in if disk_exists d potentialIdx then potentialIdx else filePath
                      else filePath)
           in case disk_readFile d finalPath of
                Inr dat \<Rightarrow>
                  \<lparr> status = 200, contentType = getMimeType finalPath, responseBody = dat \<rparr>
              | Inl readErr \<Rightarrow>
                  if is_ENOENT readErr
                  then (case disk_readFile d (path_join [publicDir, ''404.html'']) of
                          Inr data404 \<Rightarrow>
                            \<lparr> status = 404, contentType = ''text/html; charset=utf-8'',
                              responseBody = data404 \<rparr>
                        | Inl err404 \<Rightarrow>
                            \<lparr> status = 404, contentType = ''text/html; charset=utf-8'',
                              responseBody = ''<h1>404 Not Found</h1>'' \<rparr>)
                  else \<lparr> status = 500, contentType = ''text/plain'',
                         responseBody = ''Internal Server Error'' \<rparr>)"

section \<open>The build\<close>

subsection \<open>The file system calls\<close>

text \<open>
  The build reads the sources and writes the pages one call after the other; each call
  either returns or throws, and a thrown exception ends the build.  The state is the disk
  and the list of files written and copied so far, which is what the build prints on
  the console as it goes.
\<close>

datatype action = Wrote string | Copied string string

type_synonym build_state = "filesystem \<times> action list"

text \<open>Sequencing: the second computation runs when the first one returned.\<close>

definition and_then :: "error + 'a \<Rightarrow> ('a \<Rightarrow> error + 'b) \<Rightarrow> error + 'b" where
  "and_then r f = (case r of Inl e \<Rightarrow> Inl e | Inr x \<Rightarrow> f x)"

text \<open>\<open>files.map(f)\<close> for an \<open>f\<close> that can throw\<close>

fun map_result :: "('a \<Rightarrow> error + 'b) \<Rightarrow> 'a list \<Rightarrow> error + 'b list" where
  "map_result f [] = Inr []"
| "map_result f (x # xs) =
     and_then (f x) (\<lambda>y. and_then (map_result f xs) (\<lambda>ys. Inr (y # ys)))"

text \<open>\<open>xs.join(sep)\<close>\<close>

fun join_with :: "string \<Rightarrow> string list \<Rightarrow> string" where
  "join_with sep [] = []"
| "join_with sep [x] = x"
| "join_with sep (x # y # ys) = x @ sep @ join_with sep (y # ys)"

text \<open>The absolute path with the given segments; the directory that holds an
  absolute normalized path, and the directories above it.\<close>

definition absolute_path :: "string list \<Rightarrow> string" where
  "absolute_path segs = CHR ''/'' # join_slash segs"

definition dirname_of :: "string \<Rightarrow> string" where
  "dirname_of p = absolute_path (butlast (segments p))"

definition ancestors :: "string \<Rightarrow> string list" where
  "ancestors p = map (\<lambda>k. absolute_path (take k (segments p))) [1..<length (segments p)]"

text \<open>\<open>fs.mkdirSync(p, { recursive: true })\<close> creates the directory and the missing
  directories above it, and throws when one of them is a file.\<close>

definition mkdirSync_recursive :: "filesystem \<Rightarrow> string \<Rightarrow> error + filesystem" where
  "mkdirSync_recursive fs p =
     (if list_ex (\<lambda>q. files fs q \<noteq> None) (ancestors p @ [p]) then Inl (ENOTDIR p)
      else Inr (fs\<lparr> dirs := dirs fs \<union> set (ancestors p @ [p]) \<rparr>))"

definition ensureDir :: "filesystem \<Rightarrow> string \<Rightarrow> error + filesystem" where
  "ensureDir fs dirPath =
     (if \<not> existsSync fs dirPath then mkdirSync_recursive fs dirPath else Inr fs)"

text \<open>\<open>fs.writeFileSync\<close> throws when the path is a directory or the directory that
  should hold the file does not exist.\<close>

definition writeFileSync :: "filesystem \<Rightarrow> string \<Rightarrow> string \<Rightarrow> error + filesystem" where
  "writeFileSync fs p text =
     (if p \<in> dirs fs then Inl (EISDIR p)
      else if dirname_of p \<notin> dirs fs
      then (if files fs (dirname_of p) \<noteq> None then Inl (ENOTDIR p) else Inl (ENOENT p))
      else Inr (fs\<lparr> files := (files fs)(p \<mapsto> text) \<rparr>))"

definition writeFile :: "build_state \<Rightarrow> string \<Rightarrow> string \<Rightarrow> error + build_state" where
  "writeFile st filePath text =
     and_then (writeFileSync (fst st) filePath text)
       (\<lambda>fs. Inr (fs, snd st @ [Wrote filePath]))"

definition copyFile :: "build_state \<Rightarrow> string \<Rightarrow> string \<Rightarrow> error + build_state" where
  "copyFile st src dest =
     and_then (readFileSync (fst st) src) (\<lambda>text.
     and_then (writeFileSync (fst st) dest text) (\<lambda>fs.
       Inr (fs, snd st @ [Copied src dest])))"

definition readdirSync :: "filesystem \<Rightarrow> string \<Rightarrow> error + string list" where
  "readdirSync fs dir =
     (if dir \<in> dirs fs then Inr (listing fs dir)
      else if files fs dir \<noteq> None then Inl (ENOTDIR dir)
      else Inl (ENOENT dir))"

definition getFilesWithExtension :: "filesystem \<Rightarrow> string \<Rightarrow> string \<Rightarrow> error + string list" where
  "getFilesWithExtension fs dir ext =
     (if \<not> existsSync fs dir then Inr []
      else and_then (readdirSync fs dir) (\<lambda>names.
             Inr (map (\<lambda>file. path_join [dir, file]) (filter (\<lambda>file. suffix ext file) names))))"

subsection \<open>Configuration\<close>

text \<open>The directory constants of the build script, from the project root (the directory
  above the script).\<close>

definition WRITING_DIR :: "string \<Rightarrow> string" where
  "WRITING_DIR root = path_join [root, ''writing'']"

definition THEME_DIR :: "string \<Rightarrow> string" where
  "THEME_DIR root = path_join [root, ''theme'']"

definition PUBLIC_DIR :: "string \<Rightarrow> string" where
  "PUBLIC_DIR root = path_join [root, ''public'']"

definition POSTS_SUBDIR :: string where
  "POSTS_SUBDIR = ''posts''"

subsection \<open>Pages\<close>

definition loadTemplate :: "string \<Rightarrow> filesystem \<Rightarrow> string \<Rightarrow> error + string" where
  "loadTemplate root fs name = readFileSync fs (path_join [THEME_DIR root, ''templates'', name])"

definition MATHJAX_SCRIPTS :: string where
  \<open>MATHJAX_SCRIPTS =
     ''\<newline>  <!-- MathJax for LaTeX equations -->''
     @ ''\<newline>  <script>''
     @ ''\<newline>    MathJax = {''
     @ ''\<newline>      tex: {''
     @ ''\<newline>        inlineMath: [['' @ [CHR 0x27] @ ''$'' @ [CHR 0x27] @ '', '' @ [CHR 0x27] @ ''$'' @ [CHR 0x27]
       @ ''], ['' @ [CHR 0x27, CHR 0x5C, CHR 0x5C] @ ''('' @ [CHR 0x27] @ '', ''
       @ [CHR 0x27, CHR 0x5C, CHR 0x5C] @ '')'' @ [CHR 0x27] @ '']],''
     @ ''\<newline>        displayMath: [['' @ [CHR 0x27] @ ''$$'' @ [CHR 0x27] @ '', '' @ [CHR 0x27] @ ''$$'' @ [CHR 0x27]
       @ ''], ['' @ [CHR 0x27, CHR 0x5C, CHR 0x5C] @ ''['' @ [CHR 0x27] @ '', ''
       @ [CHR 0x27, CHR 0x5C, CHR 0x5C] @ '']'' @ [CHR 0x27] @ '']]''
     @ ''\<newline>      },''
     @ ''\<newline>      svg: { fontCache: '' @ [CHR 0x27] @ ''global'' @ [CHR 0x27] @ '' }''
     @ ''\<newline>    };''
     @ ''\<newline>  </script>''
     @ ''\<newline>  <script id="MathJax-script" async src="https://cdn.jsdelivr.net/npm/mathjax@3/es5/tex-mml-chtml.js"></script>''
     @ ''\<newline>''\<close>

definition PRISMJS_SCRIPTS :: string where
  \<open>PRISMJS_SCRIPTS =
     ''\<newline>  <!-- Prism.js for syntax highlighting -->''
     @ ''\<newline>  <script src="https://cdnjs.cloudflare.com/ajax/libs/prism/1.29.0/prism.min.js"></script>''
     @ ''\<newline>  <script src="https://cdnjs.cloudflare.com/ajax/libs/prism/1.29.0/components/prism-python.min.js"></script>''
     @ ''\<newline>''\<close>

definition generateHeadExtras :: "document \<Rightarrow> string" where
  "generateHeadExtras doc =
     (if usesMath doc then MATHJAX_SCRIPTS else []) @ (if usesCode doc then PRISMJS_SCRIPTS else [])"

definition renderPost :: "runtime \<Rightarrow> string \<Rightarrow> filesystem \<Rightarrow> document \<Rightarrow> error + string" where
  "renderPost rt root fs doc =
     and_then (loadTemplate root fs ''base.html'') (\<lambda>baseTemplate.
     and_then (loadTemplate root fs ''post.html'') (\<lambda>postTemplate.
       let postContent =
             renderTemplate postTemplate
               [(''title'', js_String rt (title doc)),
                (''subtitle'', js_String rt (subtitle doc)),
                (''body'', body doc),
                (''footnotes'', [])]
       in Inr (renderTemplate baseTemplate
                 [(''title'', js_String rt (title doc)),
                  (''description'', js_String rt (description doc)),
                  (''head_extra'', generateHeadExtras doc),
                  (''body_class'', ''post-page''),
                  (''content'', postContent)])))"

text \<open>One entry of the list of the index, and the list: the entries of the sorted
  posts joined by a line break.\<close>

definition post_list_item :: "runtime \<Rightarrow> document \<Rightarrow> string" where
  \<open>post_list_item rt post =
     (let formattedDate = formatPostDate rt (date post);
          dateHtml = (if formattedDate \<noteq> []
                      then ''<span class="post-date">'' @ formattedDate @ ''</span>''
                      else ''<span class="post-date"></span>'');
          titleHtml = ''<a href="posts/'' @ slug post @ ''/">'' @ js_String rt (title post) @ ''</a>''
      in ''  <li class="post-list-item">'' @ dateHtml @ titleHtml @ ''</li>'')\<close>

definition postListHtml :: "runtime \<Rightarrow> document list \<Rightarrow> string" where
  "postListHtml rt posts = join_with ''\<newline>'' (map (post_list_item rt) (sortedPosts rt posts))"

definition renderIndex :: "runtime \<Rightarrow> string \<Rightarrow> filesystem \<Rightarrow> document list \<Rightarrow> error + string" where
  "renderIndex rt root fs posts =
     and_then (loadTemplate root fs ''base.html'') (\<lambda>baseTemplate.
     and_then (loadTemplate root fs ''index.html'') (\<lambda>indexTemplate.
     and_then
       (let indexMdPath = path_join [WRITING_DIR root, ''index.md'']
        in if existsSync fs indexMdPath
           then and_then (parseDocument rt fs indexMdPath)
                  (\<lambda>d. Inr (js_String rt (title d), js_String rt (description d)))
           else Inr (''Ink Dreams - Notes'', ''Notes and essays in a hand-drawn aesthetic.''))
       (\<lambda>(indexTitle, indexDescription).
          let indexContent = renderTemplate indexTemplate [(''post_list'', postListHtml rt posts)]
          in Inr (renderTemplate baseTemplate
                    [(''title'', indexTitle),
                     (''description'', indexDescription),
                     (''head_extra'', []),
                     (''body_class'', ''centered-list''),
                     (''content'', indexContent)]))))"

text \<open>The first occurrence of a literal text: the text before it and the text after
  it.\<close>

fun find_sub :: "string \<Rightarrow> string \<Rightarrow> (string \<times> string) option" where
  "find_sub needle [] = (if needle = [] then Some ([], []) else None)"
| "find_sub needle (c # cs) =
     (case strip_prefix needle (c # cs) of
        Some rest \<Rightarrow> Some ([], rest)
      | None \<Rightarrow> (case find_sub needle cs of
                   Some (pre, rest) \<Rightarrow> Some (c # pre, rest)
                 | None \<Rightarrow> None))"

text \<open>\<open>baseTemplate.replace(/<div class="fixed-footer">[\s\S]*?<\/div>/, r)\<close>: the
  first footer block, up to the first closing tag after it, is replaced.\<close>

definition replace_footer :: "string \<Rightarrow> string \<Rightarrow> string" where
  \<open>replace_footer baseTemplate footerReplacement =
     (case find_sub ''<div class="fixed-footer">'' baseTemplate of
        None \<Rightarrow> baseTemplate
      | Some (pre, inner) \<Rightarrow>
          (case find_sub ''</div>'' inner of
             None \<Rightarrow> baseTemplate
           | Some (skipped, post) \<Rightarrow> pre @ footerReplacement @ post))\<close>

definition footerReplacement :: string where
  \<open>footerReplacement =
     ''<div class="fixed-footer">''
     @ ''<a href="/index.html" class="footer-back-arrow" aria-label="Back to notes"></a>''
     @ ''<span>&copy; Canaan McKenzie</span>''
     @ ''</div>''\<close>

definition renderAbout :: "runtime \<Rightarrow> string \<Rightarrow> filesystem \<Rightarrow> error + string" where
  "renderAbout rt root fs =
     and_then (loadTemplate root fs ''base.html'') (\<lambda>baseTemplate.
     and_then (loadTemplate root fs ''about.html'') (\<lambda>aboutTemplate.
     and_then
       (let aboutMdPath = path_join [WRITING_DIR root, ''about.md'']
        in if existsSync fs aboutMdPath
           then and_then (parseDocument rt fs aboutMdPath)
                  (\<lambda>d. Inr (js_String rt (title d), js_String rt (description d), body d))
           else Inr (''About'', ''About this site'', ''<p>About page content.</p>''))
       (\<lambda>(aboutTitle, aboutDescription, aboutBody).
          let aboutContent = renderTemplate aboutTemplate
                               [(''title'', aboutTitle), (''content'', aboutBody)];
              baseWithModifiedFooter = replace_footer baseTemplate footerReplacement
          in Inr (renderTemplate baseWithModifiedFooter
                    [(''title'', aboutTitle),
                     (''description'', aboutDescription),
                     (''head_extra'', []),
                     (''body_class'', ''hero''),
                     (''content'', aboutContent)]))))"

definition render404 :: "string \<Rightarrow> filesystem \<Rightarrow> error + string" where
  "render404 root fs =
     and_then (loadTemplate root fs ''base.html'') (\<lambda>baseTemplate.
     and_then (loadTemplate root fs ''404.html'') (\<lambda>notFoundTemplate.
       Inr (renderTemplate baseTemplate
              [(''title'', ''404 Not Found''),
               (''description'', ''Page not found''),
               (''head_extra'', []),
               (''body_class'', ''error-page''),
               (''content'', notFoundTemplate)])))"

subsection \<open>The steps of the build\<close>

text \<open>\<open>outputPath\<close> of the loop over the posts\<close>

definition post_output_path :: "string \<Rightarrow> document \<Rightarrow> string" where
  "post_output_path root doc =
     path_join [path_join [PUBLIC_DIR root, POSTS_SUBDIR, slug doc], ''index.html'']"

text \<open>Step 3, the loop \<open>posts.forEach\<close>\<close>

fun render_posts :: "runtime \<Rightarrow> string \<Rightarrow> build_state \<Rightarrow> document list \<Rightarrow> error + build_state" where
  "render_posts rt root st [] = Inr st"
| "render_posts rt root st (doc # docs) =
     and_then (renderPost rt root (fst st) doc) (\<lambda>html.
     and_then (ensureDir (fst st) (path_join [PUBLIC_DIR root, POSTS_SUBDIR, slug doc])) (\<lambda>fs.
     and_then (writeFile (fs, snd st) (post_output_path root doc) html) (\<lambda>st'.
       render_posts rt root st' docs)))"

text \<open>Step 4\<close>

definition render_main_pages :: "runtime \<Rightarrow> string \<Rightarrow> build_state \<Rightarrow> document list \<Rightarrow> error + build_state" where
  "render_main_pages rt root st posts =
     and_then (renderIndex rt root (fst st) posts) (\<lambda>indexHtml.
     and_then (writeFile st (path_join [PUBLIC_DIR root, ''index.html'']) indexHtml) (\<lambda>st1.
     and_then (renderAbout rt root (fst st1)) (\<lambda>aboutHtml.
     and_then (writeFile st1 (path_join [PUBLIC_DIR root, ''about.html'']) aboutHtml) (\<lambda>st2.
     and_then (render404 root (fst st2)) (\<lambda>notFoundHtml.
       writeFile st2 (path_join [PUBLIC_DIR root, ''404.html'']) notFoundHtml)))))"

text \<open>Step 5\<close>

definition copy_static_assets :: "string \<Rightarrow> build_state \<Rightarrow> error + build_state" where
  "copy_static_assets root st =
     and_then (copyFile st (path_join [THEME_DIR root, ''styles.css''])
                 (path_join [PUBLIC_DIR root, ''styles.css''])) (\<lambda>st1.
     and_then (copyFile st1 (path_join [THEME_DIR root, ''script.js''])
                 (path_join [PUBLIC_DIR root, ''script.js''])) (\<lambda>st2.
       copyFile st2 (path_join [THEME_DIR root, ''favicon.svg''])
         (path_join [PUBLIC_DIR root, ''favicon.svg''])))"

text \<open>Step 2\<close>

definition parse_posts :: "runtime \<Rightarrow> string \<Rightarrow> filesystem \<Rightarrow> error + document list" where
  "parse_posts rt root fs =
     and_then (getFilesWithExtension fs (path_join [WRITING_DIR root, POSTS_SUBDIR]) ''.md'')
       (\<lambda>postFiles. map_result (parseDocument rt fs) postFiles)"

text \<open>\<open>buildSite\<close>: step 1 and the steps above\<close>

definition buildSite :: "runtime \<Rightarrow> string \<Rightarrow> filesystem \<Rightarrow> error + build_state" where
  "buildSite rt root fs0 =
     and_then (ensureDir fs0 (PUBLIC_DIR root)) (\<lambda>fs1.
     and_then (ensureDir fs1 (path_join [PUBLIC_DIR root, POSTS_SUBDIR])) (\<lambda>fs2.
     and_then (parse_posts rt root fs2) (\<lambda>posts.
     and_then (render_posts rt root (fs2, []) posts) (\<lambda>st3.
     and_then (render_main_pages rt root st3 posts) (\<lambda>st4.
       copy_static_assets root st4)))))"

text \<open>What steps 4 and 5 write and copy, in order.\<close>

definition main_actions :: "string \<Rightarrow> action list" where
  "main_actions root =
     [Wrote (path_join [PUBLIC_DIR root, ''index.html'']),
      Wrote (path_join [PUBLIC_DIR root, ''about.html'']),
      Wrote (path_join [PUBLIC_DIR root, ''404.html'']),
      Copied (path_join [THEME_DIR root, ''styles.css'']) (path_join [PUBLIC_DIR root, ''styles.css'']),
      Copied (path_join [THEME_DIR root, ''script.js'']) (path_join [PUBLIC_DIR root, ''script.js'']),
      Copied (path_join [THEME_DIR root, ''favicon.svg'']) (path_join [PUBLIC_DIR root, ''favicon.svg''])]"

text \<open>A segment without separator, and the segments that the directory of a post adds
  to the output root: a slug that is empty or \<open>.\<close> adds none of its own, the slug \<open>..\<close>
  takes \<open>posts\<close> away.\<close>

definition plain_seg :: "string \<Rightarrow> bool" where
  "plain_seg s = (s \<noteq> [] \<and> CHR ''/'' \<notin> set s)"

definition slug_segments :: "string \<Rightarrow> string list" where
  "slug_segments s =
     (if s = [] \<or> s = ''.'' then [''posts'']
      else if s = ''..'' then []
      else [''posts'', s])"

section \<open>Concrete inputs for the examples\<close>

text \<open>
  The theorems hold for every runtime.  The examples are evaluated in this one: a
  \<open>Date.parse\<close> that reads the date-only form \<open>YYYY-MM-DD\<close> of the language's date
  format as midnight UTC and nothing else, a frontmatter library that knows the header
  of one text, a Markdown converter that wraps the text in a paragraph, and a
  \<open>Date.prototype.toString\<close> that prints the time value.
\<close>

definition is_digit :: "char \<Rightarrow> bool" where
  "is_digit c = (c \<in> set ''0123456789'')"

definition digits_value :: "string \<Rightarrow> int" where
  "digits_value s = foldl (\<lambda>a c. 10 * a + int (of_char c - 48)) 0 s"

definition days_before_month :: "int \<Rightarrow> int \<Rightarrow> int" where
  "days_before_month y m =
     [0, 31, 59, 90, 120, 151, 181, 212, 243, 273, 304, 334] ! nat (m - 1)
       + (if 2 < m \<and> DaysInYear y = 366 then 1 else 0)"

definition days_in_month :: "int \<Rightarrow> int \<Rightarrow> int" where
  "days_in_month y m =
     [31, 28, 31, 30, 31, 30, 31, 31, 30, 31, 30, 31] ! nat (m - 1)
       + (if m = 2 \<and> DaysInYear y = 366 then 1 else 0)"

definition iso_date_only :: "string \<Rightarrow> int option" where
  "iso_date_only s =
     (if length s = 10 \<and> s ! 4 = CHR ''-'' \<and> s ! 7 = CHR ''-''
         \<and> list_all is_digit (take 4 s @ take 2 (drop 5 s) @ drop 8 s)
      then let y = digits_value (take 4 s);
               m = digits_value (take 2 (drop 5 s));
               d = digits_value (drop 8 s)
           in if 1 \<le> m \<and> m \<le> 12 \<and> 1 \<le> d \<and> d \<le> days_in_month y m
              then Some (msPerDay * (DayFromYear y + days_before_month y m + (d - 1)))
              else None
      else None)"

definition sample_matter :: "string \<Rightarrow> error + matter_result" where
  "sample_matter s =
     (if s = ''---\<newline>title: Hello\<newline>date: 2025-01-10\<newline>---\<newline>Hi''
      then Inr \<lparr> data = [''title'' \<mapsto> JStr ''Hello'',
                          ''date'' \<mapsto> JDate (Some 1736467200000)],
                  content = ''Hi'' \<rparr>
      else Inr \<lparr> data = Map.empty, content = s \<rparr>)"

definition sample_runtime :: runtime where
  "sample_runtime =
     \<lparr> matter = sample_matter,
       marked_parse = (\<lambda>s. ''<p>'' @ s @ ''</p>''),
       Date_parse = iso_date_only,
       Date_toString = (\<lambda>t. ''[Date '' @ number_string t @ '']'') \<rparr>"

text \<open>A post with a slug and a date, the other fields as \<open>parseDocument\<close> fills them
  for a file without header.\<close>

definition post_with :: "string \<Rightarrow> jsval \<Rightarrow> document" where
  "post_with s d =
     \<lparr> title = JStr ''Untitled'', subtitle = JStr [], description = JStr [],
       date = d, template = JStr ''post'', usesMath = False, usesCode = False,
       body = [], slug = s \<rparr>"

definition sample_disk :: disk where
  "sample_disk =
     \<lparr> disk_stat = (\<lambda>p. if p = ''/srv/site/public'' \<or> p = ''/srv/site/public/posts''
                            \<or> p = ''/srv/site/public/posts/hello-world''
                          then Inr True
                          else if p = ''/srv/site/public/index.html''
                            \<or> p = ''/srv/site/public/404.html''
                            \<or> p = ''/srv/site/public/posts/hello-world/index.html''
                          then Inr False else Inl (ENOENT p)),
       disk_readFile = (\<lambda>p. if p = ''/srv/site/public/index.html'' then Inr ''<h1>Notes</h1>''
                          else if p = ''/srv/site/public/404.html'' then Inr ''<h1>Lost</h1>''
                          else if p = ''/srv/site/public/posts/hello-world/index.html''
                          then Inr ''<h1>Hello</h1>''
                          else if p = ''/srv/site/public'' \<or> p = ''/srv/site/public/posts''
                            \<or> p = ''/srv/site/public/posts/hello-world''
                          then Inl (EISDIR p) else Inl (ENOENT p)),
       disk_exists = (\<lambda>p. p \<in> {''/srv/site/public'', ''/srv/site/public/posts'',
                          ''/srv/site/public/posts/hello-world'',
                          ''/srv/site/public/index.html'', ''/srv/site/public/404.html'',
                          ''/srv/site/public/posts/hello-world/index.html''}) \<rparr>"


definition sample_site :: filesystem where
  "sample_site =
     \<lparr> files =
         [''/site/theme/templates/base.html'' \<mapsto>
            ''<title>{{title}}</title>{{head_extra}}<body class={{body_class}}>{{ content }}</body>'',
          ''/site/theme/templates/post.html'' \<mapsto> ''<h1>{{title}}</h1>{{body}}{{footnotes}}'',
          ''/site/theme/templates/index.html'' \<mapsto> ''<ul>{{post_list}}</ul>'',
          ''/site/theme/templates/about.html'' \<mapsto> ''<h1>{{title}}</h1>{{content}}'',
          ''/site/theme/templates/404.html'' \<mapsto> ''<p>Lost</p>'',
          ''/site/theme/styles.css'' \<mapsto> ''body {}'',
          ''/site/theme/script.js'' \<mapsto> ''void 0'',
          ''/site/theme/favicon.svg'' \<mapsto> ''<svg/>'',
          ''/site/writing/posts/hello-world.md'' \<mapsto>
            ''---\<newline>title: Hello\<newline>date: 2025-01-10\<newline>---\<newline>Hi''],
       dirs = {''/site'', ''/site/theme'', ''/site/theme/templates'', ''/site/writing'',
               ''/site/writing/posts''},
       listing = (\<lambda>d. if d = ''/site/writing/posts'' then [''hello-world.md'', ''notes.txt'']
                       else []) \<rparr>"

definition sample_site_without_posts :: filesystem where
  "sample_site_without_posts =
     \<lparr> files =
         [''/site/theme/templates/base.html'' \<mapsto>
            ''<title>{{title}}</title>{{head_extra}}<body class={{body_class}}>{{ content }}</body>'',
          ''/site/theme/templates/index.html'' \<mapsto> ''<ul>{{post_list}}</ul>'',
          ''/site/theme/templates/about.html'' \<mapsto> ''<h1>{{title}}</h1>{{content}}'',
          ''/site/theme/templates/404.html'' \<mapsto> ''<p>Lost</p>'',
          ''/site/theme/styles.css'' \<mapsto> ''body {}'',
          ''/site/theme/script.js'' \<mapsto> ''void 0'',
          ''/site/theme/favicon.svg'' \<mapsto> ''<svg/>''],
       dirs = {''/site'', ''/site/theme'', ''/site/theme/templates'', ''/site/writing''},
       listing = (\<lambda>d. []) \<rparr>"

section \<open>Properties of the code block renderer\<close>

lemma replace_char_append:
  "replace_char c r (xs @ ys) = replace_char c r xs @ replace_char c r ys"
  by (simp add: replace_char_def)

lemma escapedCode_Cons: "escapedCode (c # cs) = html_entity c @ escapedCode cs"
  by (simp add: escapedCode_def replace_char_def)

lemma escapedCode_entities: "escapedCode code = concat (map html_entity code)"
proof (induction code)
  case Nil
  show ?case by (simp add: escapedCode_def replace_char_def)
next
  case (Cons c cs)
  then show ?case by (simp only: escapedCode_Cons list.map concat.simps)
qed

lemma escapedCode_no_angle:
  "CHR ''<'' \<notin> set (escapedCode code) \<and> CHR ''>'' \<notin> set (escapedCode code)"
  by (induction code) (auto simp: escapedCode_Cons, simp_all add: escapedCode_def replace_char_def)

text \<open>
  C7.  For every code block, the escaped content is the content with each \<open>&\<close>, \<open><\<close>
  and \<open>>\<close> replaced by \<open>&amp;\<close>, \<open>&lt;\<close> and \<open>&gt;\<close> (so no raw angle bracket of the
  code survives), and a language tag that is present appears in the output as the class
  \<open>language-<tag>\<close> of the \<open>code\<close> element and nowhere else; without a tag the element
  has no class.
\<close>

theorem renderer_code_escapes_and_tags:
  \<open>(language \<noteq> [] \<longrightarrow>
      renderer_code code (Some language) =
        ''<pre><code class="language-'' @ language @ ''">''
          @ concat (map html_entity code) @ ''</code></pre>\<newline>'')
   \<and> renderer_code code None =
        ''<pre><code>'' @ concat (map html_entity code) @ ''</code></pre>\<newline>''
   \<and> renderer_code code (Some []) = renderer_code code None
   \<and> CHR ''<'' \<notin> set (escapedCode code) \<and> CHR ''>'' \<notin> set (escapedCode code)\<close>
  using escapedCode_no_angle [of code]
  by (simp add: renderer_code_def escapedCode_entities)

theorem renderer_code_python_witness:
  \<open>''python'' \<noteq> [] \<and>
   renderer_code ''if a < b && c > d:'' (Some ''python'') =
     ''<pre><code class="language-python">if a &lt; b &amp;&amp; c &gt; d:</code></pre>\<newline>''\<close>
proof -
  have tag: "''python'' \<noteq> []" by simp
  have "renderer_code ''if a < b && c > d:'' (Some ''python'') =
        ''<pre><code class=\"language-'' @ ''python'' @ ''\">''
          @ concat (map html_entity ''if a < b && c > d:'') @ ''</code></pre>\<newline>''"
    using renderer_code_escapes_and_tags [of "''python''" "''if a < b && c > d:''"] tag
    by blast
  then show ?thesis by simp
qed

section \<open>Properties of the document parser\<close>

lemma property_empty: "property Map.empty k = JUndefined"
  by (simp add: property_def)

text \<open>
  C4.  When the frontmatter library finds no header in a file (it returns no metadata
  and the whole text as content), \<open>parseDocument\<close> returns the document whose title is
  \<open>Untitled\<close>, whose subtitle, description and date are the empty string, whose
  template is \<open>post\<close>, whose two flags are false, and whose body is the conversion of
  the whole file.
\<close>

theorem parseDocument_no_frontmatter_defaults:
  assumes "readFileSync fs filePath = Inr raw"
    and "matter rt raw = Inr \<lparr> data = Map.empty, content = raw \<rparr>"
  shows "parseDocument rt fs filePath =
           Inr \<lparr> title = JStr ''Untitled'', subtitle = JStr [], description = JStr [],
                 date = JStr [], template = JStr ''post'',
                 usesMath = False, usesCode = False,
                 body = marked_parse rt raw, slug = basename filePath ''.md'' \<rparr>"
  using assms
  by (simp add: parseDocument_def property_empty js_or_def strictly_true_def)

theorem parseDocument_no_frontmatter_witness:
  "readFileSync \<lparr> files = [''/site/writing/posts/notes.md'' \<mapsto> ''Hello''],
                  dirs = {}, listing = (\<lambda>d. []) \<rparr> ''/site/writing/posts/notes.md''
     = Inr ''Hello''
   \<and> parseDocument
        \<lparr> matter = (\<lambda>s. Inr \<lparr> data = Map.empty, content = s \<rparr>),
          marked_parse = (\<lambda>s. ''<p>'' @ s @ ''</p>''),
          Date_parse = (\<lambda>s. None), Date_toString = (\<lambda>t. []) \<rparr>
        \<lparr> files = [''/site/writing/posts/notes.md'' \<mapsto> ''Hello''],
          dirs = {}, listing = (\<lambda>d. []) \<rparr>
        ''/site/writing/posts/notes.md''
     = Inr \<lparr> title = JStr ''Untitled'', subtitle = JStr [], description = JStr [],
             date = JStr [], template = JStr ''post'',
             usesMath = False, usesCode = False,
             body = ''<p>Hello</p>'', slug = ''notes'' \<rparr>"
proof -
  let ?fs = "\<lparr> files = [''/site/writing/posts/notes.md'' \<mapsto> ''Hello''],
               dirs = {}, listing = (\<lambda>d. []) \<rparr>"
  let ?rt = "\<lparr> matter = (\<lambda>s. Inr \<lparr> data = Map.empty, content = s \<rparr>),
               marked_parse = (\<lambda>s. ''<p>'' @ s @ ''</p>''),
               Date_parse = (\<lambda>s. None), Date_toString = (\<lambda>t. []) \<rparr>"
  have r: "readFileSync ?fs ''/site/writing/posts/notes.md'' = Inr ''Hello''"
    by (simp add: readFileSync_def)
  have m: "matter ?rt ''Hello'' = Inr \<lparr> data = Map.empty, content = ''Hello'' \<rparr>"
    by simp
  have s: "basename ''/site/writing/posts/notes.md'' ''.md'' = ''notes''"
    by (simp add: basename_def last_component_def suffix_to_prefix)
  show ?thesis
    using parseDocument_no_frontmatter_defaults [OF r m] r s by simp
qed

text \<open>
  C9.  For a file that is read and whose header is parsed, \<open>usesMath\<close> is true exactly
  when the header maps \<open>uses_math\<close> to the boolean \<open>true\<close>, and \<open>usesCode\<close> exactly
  when it maps \<open>uses_code\<close> to the boolean \<open>true\<close>: a string, a number, \<open>null\<close> or a
  missing key all give false.
\<close>

theorem parseDocument_flags_strict:
  assumes "readFileSync fs filePath = Inr raw"
    and "matter rt raw = Inr m"
  shows "\<exists>d. parseDocument rt fs filePath = Inr d
           \<and> usesMath d = (data m ''uses_math'' = Some (JBool True))
           \<and> usesCode d = (data m ''uses_code'' = Some (JBool True))"
  using assms
  by (auto simp: parseDocument_def property_def strictly_true_def split: option.splits)

theorem parseDocument_flags_witness:
  "\<exists>d. parseDocument
          \<lparr> matter = (\<lambda>s. Inr \<lparr> data = [''uses_math'' \<mapsto> JStr ''true'',
                                           ''uses_code'' \<mapsto> JBool True],
                                   content = s \<rparr>),
            marked_parse = (\<lambda>s. s), Date_parse = (\<lambda>s. None),
            Date_toString = (\<lambda>t. []) \<rparr>
          \<lparr> files = [''/site/writing/posts/a.md'' \<mapsto> ''text''],
            dirs = {}, listing = (\<lambda>d. []) \<rparr>
          ''/site/writing/posts/a.md'' = Inr d
       \<and> usesMath d = False \<and> usesCode d = True"
proof -
  let ?m = "\<lparr> data = [''uses_math'' \<mapsto> JStr ''true'', ''uses_code'' \<mapsto> JBool True],
              content = ''text'' \<rparr>"
  let ?fs = "\<lparr> files = [''/site/writing/posts/a.md'' \<mapsto> ''text''],
               dirs = {}, listing = (\<lambda>d. []) \<rparr>"
  let ?rt = "\<lparr> matter = (\<lambda>s. Inr \<lparr> data = [''uses_math'' \<mapsto> JStr ''true'',
                                              ''uses_code'' \<mapsto> JBool True],
                                      content = s \<rparr>),
               marked_parse = (\<lambda>s. s), Date_parse = (\<lambda>s. None),
               Date_toString = (\<lambda>t. []) \<rparr>"
  have r: "readFileSync ?fs ''/site/writing/posts/a.md'' = Inr ''text''"
    by (simp add: readFileSync_def)
  have m: "matter ?rt ''text'' = Inr ?m"
    by simp
  from parseDocument_flags_strict [OF r m]
  obtain d where "parseDocument ?rt ?fs ''/site/writing/posts/a.md'' = Inr d"
    and "usesMath d = (data ?m ''uses_math'' = Some (JBool True))"
    and "usesCode d = (data ?m ''uses_code'' = Some (JBool True))"
    by blast
  then show ?thesis by simp
qed

section \<open>Properties of the template engine\<close>

lemma is_space_not_brace: "is_space c \<Longrightarrow> c \<noteq> CHR ''{''"
  by (auto simp: is_space_def)
lemma word_char_not_brace: "word_char c \<Longrightarrow> c \<noteq> CHR ''{''"
  by (auto simp: word_char_def Let_def)
lemma word_char_not_space: "word_char c \<Longrightarrow> \<not> is_space c"
  by (auto simp: word_char_def is_space_def Let_def)

lemma match_placeholder_intro:
  assumes "plain_key key" "list_all is_space w1" "list_all is_space w2"
  shows "match_placeholder key (''{{'' @ w1 @ key @ w2 @ ''}}'' @ rest) = Some rest"
proof -
  have k: "key = [] \<or> \<not> is_space (hd key)"
    using assms(1) by (cases key) (auto simp: plain_key_def word_char_not_space)
  have nb: "\<not> is_space (CHR ''}'')" by (simp add: is_space_def)
  have skip: "dropWhile is_space (w @ x) = dropWhile is_space x" if "list_all is_space w" for w x
    using that by (simp add: dropWhile_append2 list_all_iff)
  have d2: "dropWhile is_space (w2 @ ''}}'' @ rest) = ''}}'' @ rest"
    using nb by (simp add: skip[OF assms(3)])
  have "\<exists>s2. strip_prefix key (dropWhile is_space (w1 @ key @ w2 @ ''}}'' @ rest)) = Some s2
           \<and> dropWhile is_space s2 = ''}}'' @ rest"
  proof (cases key)
    case Nil
    then show ?thesis using d2 nb by (simp add: skip[OF assms(2)])
  next
    case (Cons a as)
    then have "\<not> is_space a" using k by simp
    then have "dropWhile is_space (w1 @ key @ w2 @ ''}}'' @ rest) = key @ w2 @ ''}}'' @ rest"
      using Cons by (simp add: skip[OF assms(2)])
    then show ?thesis using d2 by (simp add: strip_prefix_Some)
  qed
  then show ?thesis
    unfolding match_placeholder_def by auto
qed

lemma placeholder_tail_no_brace:
  assumes "plain_key key" "list_all is_space w1" "list_all is_space w2"
  shows "CHR ''{'' \<notin> set (w1 @ key @ w2 @ ''}}'')"
  using assms
  by (auto simp: plain_key_def list_all_iff dest: is_space_not_brace word_char_not_brace)

lemma match_placeholder_append:
  assumes key: "plain_key key" and ne: "p \<noteq> []"
  shows "match_placeholder key (p @ ''{{'' @ r) = map_option (\<lambda>x. x @ ''{{'' @ r) (match_placeholder key p)"
proof (cases "match_placeholder key p")
  case (Some x)
  from match_placeholder_shape[OF Some] obtain w1 w2 where
    "p = ''{{'' @ w1 @ key @ w2 @ ''}}'' @ x" "list_all is_space w1" "list_all is_space w2" by blast
  then show ?thesis using match_placeholder_intro[OF key, of w1 w2 "x @ ''{{'' @ r"] Some by simp
next
  case None
  have "match_placeholder key (p @ ''{{'' @ r) = None"
  proof (rule ccontr)
    assume "match_placeholder key (p @ ''{{'' @ r) \<noteq> None"
    then obtain rest where m: "match_placeholder key (p @ ''{{'' @ r) = Some rest" by blast
    from match_placeholder_shape[OF m] obtain w1 w2 where
      eq: "p @ ''{{'' @ r = ''{{'' @ w1 @ key @ w2 @ ''}}'' @ rest"
      and w: "list_all is_space w1" "list_all is_space w2" by blast
    define m' where "m' = w1 @ key @ w2 @ ''}}''"
    have nb: "CHR ''{'' \<notin> set m'" unfolding m'_def by (rule placeholder_tail_no_brace[OF key w])
    have m'ne: "m' \<noteq> []" by (simp add: m'_def)
    have eq': "p @ ''{{'' @ r = ''{{'' @ m' @ rest" using eq by (simp add: m'_def)
    obtain c p1 where p: "p = c # p1" using ne by (cases p) auto
    show False
    proof (cases p1)
      case Nil
      with eq' p have "''{'' @ r = m' @ rest" by simp
      then have "hd m' = CHR ''{''" using m'ne by (cases m') auto
      then show False using nb m'ne by (cases m') auto
    next
      case (Cons c2 p2)
      with eq' p have e2: "p2 @ ''{{'' @ r = m' @ rest" and pp: "p = ''{{'' @ p2" by auto
      from e2 consider u where "p2 = m' @ u" | u where "m' = p2 @ u" "u \<noteq> []" "u @ rest = ''{{'' @ r"
        by (auto simp: append_eq_append_conv2) (metis append_Nil2)
      then show False
      proof cases
        case 1
        then have "p = ''{{'' @ w1 @ key @ w2 @ ''}}'' @ u" using pp by (simp add: m'_def)
        then have "match_placeholder key p = Some u" using match_placeholder_intro[OF key w] by simp
        then show False using None by simp
      next
        case 2
        then have "hd u = CHR ''{''" by (cases u) auto
        then have "CHR ''{'' \<in> set m'" using 2 by (cases u) auto
        then show False using nb by simp
      qed
    qed
  qed
  then show ?thesis using None by simp
qed

lemma replace_placeholder_before:
  "plain_key key \<Longrightarrow>
   replace_placeholder key val (pre @ ''{{'' @ r) =
     replace_placeholder key val pre @ replace_placeholder key val (''{{'' @ r)"
proof (induction key val pre rule: replace_placeholder.induct)
  case (1 key val)
  show ?case by simp
next
  case (2 key val c cs)
  have m: "match_placeholder key ((c # cs) @ ''{{'' @ r) =
           map_option (\<lambda>x. x @ ''{{'' @ r) (match_placeholder key (c # cs))"
    by (rule match_placeholder_append[OF "2.prems"]) simp
  show ?case
  proof (cases "match_placeholder key (c # cs)")
    case None
    then show ?thesis using m "2.IH"(1)[OF None "2.prems"] by simp
  next
    case (Some x)
    then show ?thesis using m "2.IH"(2)[OF Some "2.prems"] by simp
  qed
qed



text \<open>
  C2.  For every template, values map, plain key and replacement value: where the text
  reached by the last entry holds a placeholder of the key (with any white space inside
  the braces), the output holds at that place exactly the characters of the value,
  whatever they are; the text before and the text after are rendered on their own.
  No character of the value is read as an escape or a back reference.
\<close>

theorem renderTemplate_value_verbatim:
  assumes "plain_key key" and "list_all is_space w1" and "list_all is_space w2"
    and "renderTemplate tmpl vals = pre @ ''{{'' @ w1 @ key @ w2 @ ''}}'' @ post"
  shows "renderTemplate tmpl (vals @ [(key, val)]) =
           renderTemplate pre [(key, val)] @ val @ renderTemplate post [(key, val)]"
proof -
  have "replace_placeholder key val (''{{'' @ w1 @ key @ w2 @ ''}}'' @ post) =
        val @ replace_placeholder key val post"
    using match_placeholder_intro [OF assms(1-3), of post] by simp
  then have "replace_placeholder key val (pre @ ''{{'' @ w1 @ key @ w2 @ ''}}'' @ post) =
        replace_placeholder key val pre @ val @ replace_placeholder key val post"
    using replace_placeholder_before [OF assms(1), of val pre "w1 @ key @ w2 @ ''}}'' @ post"]
    by simp
  then show ?thesis
    using assms(4) by (simp add: renderTemplate_def)
qed

theorem renderTemplate_value_verbatim_witness:
  "plain_key ''body'' \<and> list_all is_space '' '' \<and> list_all is_space []
   \<and> renderTemplate ''<main>{{ body}}</main>'' [] = ''<main>'' @ ''{{'' @ '' '' @ ''body'' @ [] @ ''}}'' @ ''</main>''
   \<and> renderTemplate ''<main>{{ body}}</main>'' [(''body'', ''$x$ costs $1, $& and '' @ [CHR 0x5C] @ ''n'')]
       = ''<main>$x$ costs $1, $& and '' @ [CHR 0x5C] @ ''n</main>''"
proof -
  have k: "plain_key ''body''" by (simp add: plain_key_def word_char_def)
  have w1: "list_all is_space '' ''" by (simp add: is_space_def)
  have w2: "list_all is_space []" by simp
  have t: "renderTemplate ''<main>{{ body}}</main>'' []
             = ''<main>'' @ ''{{'' @ '' '' @ ''body'' @ [] @ ''}}'' @ ''</main>''"
    by (simp add: renderTemplate_def)
  have pre: "renderTemplate ''<main>'' [(''body'', v)] = ''<main>''" for v
    by (simp add: renderTemplate_def match_placeholder_def)
  have post: "renderTemplate ''</main>'' [(''body'', v)] = ''</main>''" for v
    by (simp add: renderTemplate_def match_placeholder_def)
  show ?thesis
    using renderTemplate_value_verbatim [OF k w1 w2 t,
        of "''$x$ costs $1, $& and '' @ [CHR 0x5C] @ ''n''"] k w1 t
    by (simp add: pre post)
qed



text \<open>
  Values free of braces are not enough for the second pass to change nothing: the
  braces of a placeholder can come from the template on both sides of a replaced
  placeholder.
\<close>

lemma renderTemplate_second_pass_example:
  "renderTemplate ''{{{{a}}}}'' [(''a'', ''a'')] = ''{{a}}''
   \<and> renderTemplate ''{{a}}'' [(''a'', ''a'')] = ''a''"
  by (simp add: renderTemplate_def match_placeholder_def is_space_def)

section \<open>Properties of the date functions\<close>

lemma int_div_bounds:
  fixes x k :: int
  assumes "0 < k"
  shows "k * (x div k) \<le> x" and "x < k * (x div k) + k"
proof -
  have "x = k * (x div k) + x mod k" by simp
  moreover have "0 \<le> x mod k" "x mod k < k" using assms by simp_all
  ultimately show "k * (x div k) \<le> x" and "x < k * (x div k) + k" by linarith+
qed

lemma DayFromYear_linear:
  "146097 * m - 506 \<le> 400 * DayFromYear (1970 + m)"
  "400 * DayFromYear (1970 + m) \<le> 146097 * m + 589"
proof -
  have p4: "(0::int) < 4" and p100: "(0::int) < 100" and p400: "(0::int) < 400" by simp_all
  define A where "A = (m + 1) div 4"
  define B where "B = (m + 69) div 100"
  define C where "C = (m + 369) div 400"
  note a = int_div_bounds[OF p4, of "m + 1", folded A_def]
  note b = int_div_bounds[OF p100, of "m + 69", folded B_def]
  note c = int_div_bounds[OF p400, of "m + 369", folded C_def]
  have "DayFromYear (1970 + m) = 365 * m + A - B + C"
    by (simp add: DayFromYear_def A_def B_def C_def add.commute)
  then have d: "400 * DayFromYear (1970 + m) = 146000 * m + 400 * A - 400 * B + 400 * C"
    by simp
  show "146097 * m - 506 \<le> 400 * DayFromYear (1970 + m)"
    unfolding d using a b c by linarith
  show "400 * DayFromYear (1970 + m) \<le> 146097 * m + 589"
    unfolding d using a b c by linarith
qed

text \<open>\<open>YearFromDay d\<close> is the year the standard defines: it starts on or before day
  \<open>d\<close> and the next year starts after it.\<close>

lemma YearFromDay_bounds:
  "DayFromYear (YearFromDay d) \<le> d \<and> d < DayFromYear (YearFromDay d + 1)"
proof -
  define n where "n = (400 * d) div 146097"
  have p: "(0::int) < 146097" by simp
  note e = int_div_bounds[OF p, of "400 * d", folded n_def]
  define L where "L = DayFromYear (1970 + (n - 1))"
  define H where "H = DayFromYear (1970 + (n + 2))"
  have "400 * L \<le> 146097 * n - 145508"
    using DayFromYear_linear(2)[of "n - 1", folded L_def] by simp
  then have lo: "L \<le> d" using e by linarith
  have "146097 * n + 291688 \<le> 400 * H"
    using DayFromYear_linear(1)[of "n + 2", folded H_def] by simp
  then have hi: "d < H" using e by linarith
  have s1: "1970 + n - 1 = 1970 + (n - 1)" "1970 + n + 1 + 1 = 1970 + (n + 2)" by simp_all
  show ?thesis
    unfolding YearFromDay_def Let_def n_def[symmetric]
    using lo hi by (auto simp: L_def H_def s1)
qed

lemma decimal_small [simp]: "n < 10 \<Longrightarrow> decimal n = [digit_char n]"
  by (subst decimal.simps) simp

lemma decimal_large [simp]: "10 \<le> n \<Longrightarrow> decimal n = decimal (n div 10) @ [digit_char n]"
  by (subst decimal.simps) simp

lemma digit_char_mem: "digit_char n \<in> set ''0123456789''"
  unfolding digit_char_def by (rule nth_mem) simp

lemma digit_char_not_space: "\<not> is_space (digit_char n)"
proof -
  have "\<forall>c \<in> set ''0123456789''. \<not> is_space c" by (simp add: is_space_def)
  then show ?thesis using digit_char_mem by blast
qed

lemma decimal_last: "decimal n \<noteq> [] \<and> last (decimal n) = digit_char n"
  by (cases "n < 10") simp_all

lemma number_string_last:
  "number_string n \<noteq> [] \<and> \<not> is_space (last (number_string n))"
  using decimal_last digit_char_not_space by (simp add: number_string_def)

lemma slice_last2_last:
  "s \<noteq> [] \<Longrightarrow> slice_last2 s \<noteq> [] \<and> last (slice_last2 s) = last s"
  by (cases s rule: rev_cases) (auto simp: slice_last2_def)

lemma decimal_two_digits:
  assumes "10 \<le> n"
  shows "slice_last2 (decimal n) = [digit_char (n div 10), digit_char n]"
proof -
  have "decimal n = decimal (n div 10) @ [digit_char n]"
    using assms by simp
  moreover obtain ys where "decimal (n div 10) = ys @ [digit_char (n div 10)]"
    using decimal_last[of "n div 10"] by (metis append_butlast_last_id)
  ultimately show ?thesis by (simp add: slice_last2_def)
qed

lemma WeekDay_range: "0 \<le> WeekDay t \<and> WeekDay t < 7"
  by (simp add: WeekDay_def)

lemma MonthFromDay_range: "0 \<le> MonthFromDay d \<and> MonthFromDay d < 12"
  by (simp add: MonthFromDay_def Let_def)

lemma weekdays_nth:
  assumes "0 \<le> i" "i < 7"
  shows "array_get weekdays i = weekdays ! nat i \<and> weekdays ! nat i \<noteq> []
         \<and> \<not> is_space (hd (weekdays ! nat i))"
proof -
  have len: "nat i < length weekdays" using assms by (simp add: weekdays_def)
  have "\<forall>w \<in> set weekdays. w \<noteq> [] \<and> \<not> is_space (hd w)"
    by (simp add: weekdays_def is_space_def)
  then have "weekdays ! nat i \<noteq> [] \<and> \<not> is_space (hd (weekdays ! nat i))"
    using nth_mem[OF len] by blast
  then show ?thesis using assms len by (simp add: array_get_def)
qed

lemma months_nth:
  assumes "0 \<le> i" "i < 12"
  shows "array_get months i = months ! nat i"
  using assms by (simp add: array_get_def months_def)

lemma js_trim_id:
  assumes "s \<noteq> []" "\<not> is_space (hd s)" "\<not> is_space (last s)"
  shows "js_trim s = s"
proof -
  have "dropWhile is_space s = s" using assms(1,2) by (cases s) auto
  moreover have "dropWhile is_space (rev s) = rev s"
    using assms(1,3) by (cases s rule: rev_cases) auto
  ultimately show ?thesis by (simp add: js_trim_def)
qed

text \<open>The label of a valid date: the trim removes nothing, and both array reads are
  in range.\<close>

lemma date_label_eq:
  "date_label t =
     weekdays ! nat (getUTCDay t) @ '' '' @ months ! nat (getUTCMonth t) @ '' ''
       @ number_string (getUTCDate t) @ '' '' @ [CHR 0x27]
       @ slice_last2 (number_string (getUTCFullYear t))"
proof -
  let ?w = "weekdays ! nat (getUTCDay t)"
  let ?y = "slice_last2 (number_string (getUTCFullYear t))"
  let ?s = "?w @ '' '' @ months ! nat (getUTCMonth t) @ '' ''
       @ number_string (getUTCDate t) @ '' '' @ [CHR 0x27] @ ?y"
  have w: "array_get weekdays (getUTCDay t) = ?w" "?w \<noteq> []" "\<not> is_space (hd ?w)"
    using weekdays_nth[of "getUTCDay t"] WeekDay_range[of t] by (simp_all add: getUTCDay_def)
  have m: "array_get months (getUTCMonth t) = months ! nat (getUTCMonth t)"
    using months_nth[of "getUTCMonth t"] MonthFromDay_range[of "Day t"]
    by (simp add: getUTCMonth_def)
  have y: "?y \<noteq> []" "\<not> is_space (last ?y)"
    using slice_last2_last[of "number_string (getUTCFullYear t)"]
      number_string_last[of "getUTCFullYear t"]
    by simp_all
  have "js_trim ?s = ?s"
  proof (rule js_trim_id)
    show "?s \<noteq> []" using w(2) by simp
    show "\<not> is_space (hd ?s)" using w(2,3) by simp
    show "\<not> is_space (last ?s)" using y by simp
  qed
  then show ?thesis by (simp add: date_label_def Let_def w m)
qed

lemmas date_eval =
  getUTCDay_def WeekDay_def Day_def msPerDay_def weekdays_def months_def
  getUTCMonth_def MonthFromDay_def DayWithinYear_def YearFromDay_def DayFromYear_def
  InLeapYear_def DaysInYear_def getUTCDate_def DateFromDay_def getUTCFullYear_def
  number_string_def slice_last2_def digit_char_def

lemmas iso_eval =
  iso_date_only_def is_digit_def digits_value_def days_in_month_def days_before_month_def
  DaysInYear_def DayFromYear_def msPerDay_def

lemma formatPostDate_valid:
  assumes "truthy v" and "new_Date rt v = Some t"
  shows "formatPostDate rt v = date_label t"
  using assms by (cases v) (auto simp: formatPostDate_def split: option.splits)

lemma formatPostDate_unparsed:
  assumes "truthy u" and "\<forall>x. u \<noteq> JDate x" and "new_Date rt u = None"
  shows "formatPostDate rt u = js_String rt u"
  using assms by (cases u) (auto simp: formatPostDate_def)

text \<open>
  C3, as the code has it.  A falsy value (the empty string of an absent date,
  \<open>undefined\<close>) gives the empty label.  A truthy value with a valid date gives
  \<open>Weekday Month Day 'YY\<close> from the UTC fields, where \<open>YY\<close> is the last two characters
  of the decimal year: two digits for every year from 10 on.  A truthy value that is
  not a \<open>Date\<close> and whose date is invalid is returned as \<open>String(value)\<close>: a string
  that does not parse is returned as it is.  An invalid \<open>Date\<close> object gives the empty
  label.
\<close>

theorem formatPostDate_cases:
  "(\<not> truthy w \<longrightarrow> formatPostDate rt w = [])
   \<and> formatPostDate rt (JStr []) = [] \<and> formatPostDate rt JUndefined = []
   \<and> (truthy v \<and> new_Date rt v = Some t \<longrightarrow>
        formatPostDate rt v =
          weekdays ! nat (getUTCDay t) @ '' '' @ months ! nat (getUTCMonth t) @ '' ''
            @ number_string (getUTCDate t) @ '' '' @ [CHR 0x27]
            @ slice_last2 (number_string (getUTCFullYear t))
        \<and> nat (getUTCDay t) < length weekdays \<and> nat (getUTCMonth t) < length months)
   \<and> (10 \<le> getUTCFullYear t \<longrightarrow>
        slice_last2 (number_string (getUTCFullYear t)) =
          [digit_char (nat (getUTCFullYear t) div 10), digit_char (nat (getUTCFullYear t))])
   \<and> (truthy u \<and> (\<forall>x. u \<noteq> JDate x) \<and> new_Date rt u = None \<longrightarrow>
        formatPostDate rt u = js_String rt u)
   \<and> (s \<noteq> [] \<and> Date_parse rt s = None \<longrightarrow> formatPostDate rt (JStr s) = s)
   \<and> formatPostDate rt (JDate None) = []"
proof -
  have a: "\<not> truthy w \<longrightarrow> formatPostDate rt w = []"
    by (simp add: formatPostDate_def)
  have b: "formatPostDate rt (JStr []) = []" "formatPostDate rt JUndefined = []"
    "formatPostDate rt (JDate None) = []"
    by (simp_all add: formatPostDate_def)
  have c: "truthy v \<and> new_Date rt v = Some t \<longrightarrow>
        formatPostDate rt v =
          weekdays ! nat (getUTCDay t) @ '' '' @ months ! nat (getUTCMonth t) @ '' ''
            @ number_string (getUTCDate t) @ '' '' @ [CHR 0x27]
            @ slice_last2 (number_string (getUTCFullYear t))
        \<and> nat (getUTCDay t) < length weekdays \<and> nat (getUTCMonth t) < length months"
    using WeekDay_range[of t] MonthFromDay_range[of "Day t"]
    by (auto simp: formatPostDate_valid date_label_eq getUTCDay_def getUTCMonth_def
          weekdays_def months_def)
  have d: "10 \<le> getUTCFullYear t \<longrightarrow>
        slice_last2 (number_string (getUTCFullYear t)) =
          [digit_char (nat (getUTCFullYear t) div 10), digit_char (nat (getUTCFullYear t))]"
    using decimal_two_digits[of "nat (getUTCFullYear t)"] by (simp add: number_string_def)
  have e: "truthy u \<and> (\<forall>x. u \<noteq> JDate x) \<and> new_Date rt u = None \<longrightarrow>
        formatPostDate rt u = js_String rt u"
    using formatPostDate_unparsed by blast
  have f: "s \<noteq> [] \<and> Date_parse rt s = None \<longrightarrow> formatPostDate rt (JStr s) = s"
    using formatPostDate_unparsed[of "JStr s" rt] by simp
  show ?thesis using a b c d e f by blast
qed

theorem formatPostDate_cases_witness:
  "\<not> truthy (JNum 0)
   \<and> truthy (JDate (Some 1766880000000))
   \<and> new_Date sample_runtime (JDate (Some 1766880000000)) = Some 1766880000000
   \<and> 10 \<le> getUTCFullYear 1766880000000
   \<and> truthy (JStr ''soon'') \<and> new_Date sample_runtime (JStr ''soon'') = None
   \<and> formatPostDate sample_runtime (JNum 0) = []
   \<and> formatPostDate sample_runtime (JDate (Some 1766880000000))
       = ''Sun Dec 28 '' @ [CHR 0x27] @ ''25''
   \<and> formatPostDate sample_runtime (JStr ''soon'') = ''soon''"
proof -
  have h1: "\<not> truthy (JNum 0)" by simp
  have h2: "truthy (JDate (Some 1766880000000))" by simp
  have h3: "new_Date sample_runtime (JDate (Some 1766880000000)) = Some 1766880000000"
    by simp
  have h4: "10 \<le> getUTCFullYear 1766880000000" by (simp add: date_eval)
  have h5: "truthy (JStr ''soon'')" by simp
  have h6: "new_Date sample_runtime (JStr ''soon'') = None"
    by (simp add: sample_runtime_def iso_date_only_def)
  have h7: "\<forall>x. JStr ''soon'' \<noteq> JDate x" by simp
  note inst = formatPostDate_cases [of "JNum 0" sample_runtime "JDate (Some 1766880000000)"
      1766880000000 "JStr ''soon''" "''soon''"]
  have r1: "formatPostDate sample_runtime (JNum 0) = []"
    using inst h1 by blast
  have "formatPostDate sample_runtime (JDate (Some 1766880000000)) =
          weekdays ! nat (getUTCDay 1766880000000) @ '' ''
            @ months ! nat (getUTCMonth 1766880000000) @ '' ''
            @ number_string (getUTCDate 1766880000000) @ '' '' @ [CHR 0x27]
            @ slice_last2 (number_string (getUTCFullYear 1766880000000))"
    using inst h2 h3 by blast
  then have r2: "formatPostDate sample_runtime (JDate (Some 1766880000000))
       = ''Sun Dec 28 '' @ [CHR 0x27] @ ''25''"
    by (simp add: date_eval)
  have "formatPostDate sample_runtime (JStr ''soon'')
          = js_String sample_runtime (JStr ''soon'')"
    using inst h5 h6 h7 by blast
  then have r3: "formatPostDate sample_runtime (JStr ''soon'') = ''soon''" by simp
  show ?thesis using h1 h2 h3 h4 h5 h6 r1 r2 r3 by blast
qed

text \<open>The label of the first of January of the year 5, given as a \<open>Date\<close> and as a
  string: the year has one digit.\<close>

theorem formatPostDate_one_digit_year:
  "new_Date sample_runtime (JStr ''0005-01-01'') = Some (- 62009366400000)
   \<and> getUTCFullYear (- 62009366400000) = 5
   \<and> formatPostDate sample_runtime (JStr ''0005-01-01'') = ''Sat Jan 1 '' @ [CHR 0x27] @ ''5''
   \<and> formatPostDate sample_runtime (JDate (Some (- 62009366400000)))
       = ''Sat Jan 1 '' @ [CHR 0x27] @ ''5''"
proof -
  have p: "new_Date sample_runtime (JStr ''0005-01-01'') = Some (- 62009366400000)"
    by (simp add: sample_runtime_def iso_eval)
  have y: "getUTCFullYear (- 62009366400000) = 5" by (simp add: date_eval)
  have l: "date_label (- 62009366400000) = ''Sat Jan 1 '' @ [CHR 0x27] @ ''5''"
    by (simp add: date_label_eq date_eval)
  have a: "formatPostDate sample_runtime (JStr ''0005-01-01'') = date_label (- 62009366400000)"
    using p by (simp add: formatPostDate_valid)
  have b: "formatPostDate sample_runtime (JDate (Some (- 62009366400000)))
             = date_label (- 62009366400000)"
    by (simp add: formatPostDate_def)
  show ?thesis using p y l a b by simp
qed

section \<open>Properties of the order of the index\<close>

lemma mset_insert_sorted: "mset (insert_sorted f x ys) = add_mset x (mset ys)"
  by (induction ys) auto

lemma set_insert_sorted: "set (insert_sorted f x ys) = insert x (set ys)"
  by (induction ys) auto

lemma mset_foldl_insert:
  "mset (foldl (\<lambda>sorted x. insert_sorted f x sorted) acc xs) = mset acc + mset xs"
  by (induction xs arbitrary: acc) (auto simp: mset_insert_sorted)

lemma sort_compare_posts:
  assumes "post_time rt a = Some ta" "post_time rt b = Some tb"
  shows "sort_compare (compare_posts rt) a b = tb - ta"
  using assms by (simp add: sort_compare_def compare_posts_def)

lemma newer_first_iff:
  assumes "post_time rt a = Some ta" "post_time rt b = Some tb"
  shows "newer_first rt a b \<longleftrightarrow> tb \<le> ta"
  using assms by (simp add: newer_first_def)

lemma sorted_insert_sorted:
  assumes "\<forall>p \<in> set (x # ys). post_time rt p \<noteq> None"
    and "sorted_wrt (newer_first rt) ys"
  shows "sorted_wrt (newer_first rt) (insert_sorted (compare_posts rt) x ys)"
  using assms
proof (induction ys)
  case Nil
  then show ?case by simp
next
  case (Cons y ys)
  obtain tx ty where t: "post_time rt x = Some tx" "post_time rt y = Some ty"
    using Cons.prems(1) by auto
  show ?case
  proof (cases "sort_compare (compare_posts rt) x y < 0")
    case True
    then have xy: "newer_first rt x y"
      using t by (simp add: sort_compare_posts newer_first_iff)
    have "newer_first rt x z" if "z \<in> set ys" for z
    proof -
      have "post_time rt z \<noteq> None" using Cons.prems(1) that by simp
      then obtain tz where tz: "post_time rt z = Some tz" by blast
      have "newer_first rt y z" using Cons.prems(2) that by simp
      then show ?thesis using xy t tz by (simp add: newer_first_iff)
    qed
    then show ?thesis using True xy Cons.prems(2) by auto
  next
    case False
    then have yx: "newer_first rt y x"
      using t by (simp add: sort_compare_posts newer_first_iff)
    have ih: "sorted_wrt (newer_first rt) (insert_sorted (compare_posts rt) x ys)"
      using Cons.IH Cons.prems by simp
    show ?thesis using False yx ih Cons.prems(2)
      by (auto simp: set_insert_sorted)
  qed
qed

lemma sorted_foldl_insert:
  assumes "\<forall>p \<in> set acc \<union> set xs. post_time rt p \<noteq> None"
    and "sorted_wrt (newer_first rt) acc"
  shows "sorted_wrt (newer_first rt)
           (foldl (\<lambda>sorted x. insert_sorted (compare_posts rt) x sorted) acc xs)"
  using assms
proof (induction xs arbitrary: acc)
  case Nil
  then show ?case by simp
next
  case (Cons x xs)
  have "sorted_wrt (newer_first rt) (insert_sorted (compare_posts rt) x acc)"
    using Cons.prems by (intro sorted_insert_sorted) auto
  moreover have "\<forall>p \<in> set (insert_sorted (compare_posts rt) x acc) \<union> set xs.
                   post_time rt p \<noteq> None"
    using Cons.prems(1) by (auto simp: set_insert_sorted)
  ultimately show ?case using Cons.IH by simp
qed

lemma post_time_absent: "date p = JStr [] \<Longrightarrow> post_time rt p = Some 0"
  by (simp add: post_time_def js_or_def TimeClip_def)

lemma post_time_present: "truthy (date p) \<Longrightarrow> post_time rt p = new_Date rt (date p)"
  by (simp add: post_time_def js_or_def)

text \<open>
  C1, as the code has it.  When the date of every post is absent or is a valid date,
  the index lists the same posts, newest first by time value; a post without date takes
  part with the time value 0, the first instant of 1970, and a post with a date with
  the time value of that date.
\<close>

theorem sortedPosts_newest_first:
  assumes "\<forall>p \<in> set posts. post_time rt p \<noteq> None"
  shows "mset (sortedPosts rt posts) = mset posts
       \<and> sorted_wrt (newer_first rt) (sortedPosts rt posts)
       \<and> (\<forall>p \<in> set posts. date p = JStr [] \<longrightarrow> post_time rt p = Some 0)
       \<and> (\<forall>p \<in> set posts. truthy (date p) \<longrightarrow> post_time rt p = new_Date rt (date p))"
  using assms sorted_foldl_insert[of "[]" posts rt]
  by (simp add: sortedPosts_def array_sort_def mset_foldl_insert post_time_absent
        post_time_present)

theorem sortedPosts_newest_first_witness:
  "post_time sample_runtime (post_with ''undated'' (JStr [])) = Some 0
   \<and> post_time sample_runtime (post_with ''seventh'' (JStr ''2025-01-07'')) = Some 1736208000000
   \<and> post_time sample_runtime (post_with ''tenth'' (JDate (Some 1736467200000)))
       = Some 1736467200000
   \<and> mset (sortedPosts sample_runtime
        [post_with ''undated'' (JStr []), post_with ''seventh'' (JStr ''2025-01-07''),
         post_with ''tenth'' (JDate (Some 1736467200000))])
     = mset [post_with ''undated'' (JStr []), post_with ''seventh'' (JStr ''2025-01-07''),
         post_with ''tenth'' (JDate (Some 1736467200000))]
   \<and> map slug (sortedPosts sample_runtime
        [post_with ''undated'' (JStr []), post_with ''seventh'' (JStr ''2025-01-07''),
         post_with ''tenth'' (JDate (Some 1736467200000))])
     = [''tenth'', ''seventh'', ''undated'']"
proof -
  let ?u = "post_with ''undated'' (JStr [])"
  let ?s = "post_with ''seventh'' (JStr ''2025-01-07'')"
  let ?t = "post_with ''tenth'' (JDate (Some 1736467200000))"
  have u: "post_time sample_runtime ?u = Some 0"
    by (simp add: post_time_def js_or_def post_with_def TimeClip_def)
  have s: "post_time sample_runtime ?s = Some 1736208000000"
    by (simp add: post_time_def js_or_def post_with_def sample_runtime_def iso_eval)
  have t: "post_time sample_runtime ?t = Some 1736467200000"
    by (simp add: post_time_def js_or_def post_with_def)
  have "\<forall>p \<in> set [?u, ?s, ?t]. post_time sample_runtime p \<noteq> None"
    using u s t by simp
  from sortedPosts_newest_first [OF this]
  have m: "mset (sortedPosts sample_runtime [?u, ?s, ?t]) = mset [?u, ?s, ?t]"
    by blast
  have o: "sortedPosts sample_runtime [?u, ?s, ?t] = [?t, ?s, ?u]"
    using u s t by (simp add: sortedPosts_def array_sort_def sort_compare_def compare_posts_def)
  have "map slug (sortedPosts sample_runtime [?u, ?s, ?t]) = [''tenth'', ''seventh'', ''undated'']"
    unfolding o by (simp add: post_with_def)
  then show ?thesis using u s t m by blast
qed

text \<open>
  With a date that does not parse the comparison function returns \<open>NaN\<close>, which the
  sort reads as "equal": in the stable insertion sort a post with such a date stays
  where the input has it, here before a dated post.  The language leaves the order to
  the implementation in this case.
\<close>

lemma sortedPosts_unparsed_example:
  "post_time sample_runtime (post_with ''draft'' (JStr ''soon'')) = None
   \<and> map slug (sortedPosts sample_runtime
        [post_with ''draft'' (JStr ''soon''),
         post_with ''tenth'' (JDate (Some 1736467200000))])
     = [''draft'', ''tenth'']"
proof -
  have d: "post_time sample_runtime (post_with ''draft'' (JStr ''soon'')) = None"
    by (simp add: post_time_def js_or_def post_with_def sample_runtime_def iso_date_only_def)
  have t: "post_time sample_runtime (post_with ''tenth'' (JDate (Some 1736467200000)))
             = Some 1736467200000"
    by (simp add: post_time_def js_or_def post_with_def)
  have "sortedPosts sample_runtime
          [post_with ''draft'' (JStr ''soon''), post_with ''tenth'' (JDate (Some 1736467200000))]
        = [post_with ''draft'' (JStr ''soon''), post_with ''tenth'' (JDate (Some 1736467200000))]"
    using d t by (simp add: sortedPosts_def array_sort_def sort_compare_def compare_posts_def)
  then show ?thesis using d by (simp add: post_with_def)
qed

text \<open>A post without date is listed before a post dated 1965-03-01, whose date is
  valid and is shown as \<open>Mon Mar 1 '65\<close>.\<close>

theorem sortedPosts_undated_before_older:
  "date (post_with ''undated'' (JStr [])) = JStr []
   \<and> new_Date sample_runtime (date (post_with ''older'' (JDate (Some (- 152668800000)))))
       = Some (- 152668800000)
   \<and> formatPostDate sample_runtime (date (post_with ''older'' (JDate (Some (- 152668800000)))))
       = ''Mon Mar 1 '' @ [CHR 0x27] @ ''65''
   \<and> map slug (sortedPosts sample_runtime
        [post_with ''older'' (JDate (Some (- 152668800000))), post_with ''undated'' (JStr [])])
     = [''undated'', ''older'']"
proof -
  let ?u = "post_with ''undated'' (JStr [])"
  let ?o = "post_with ''older'' (JDate (Some (- 152668800000)))"
  have u: "post_time sample_runtime ?u = Some 0"
    by (simp add: post_time_def js_or_def post_with_def TimeClip_def)
  have o: "post_time sample_runtime ?o = Some (- 152668800000)"
    by (simp add: post_time_def js_or_def post_with_def)
  have l: "date_label (- 152668800000) = ''Mon Mar 1 '' @ [CHR 0x27] @ ''65''"
    by (simp add: date_label_eq date_eval)
  have f: "formatPostDate sample_runtime (date ?o) = date_label (- 152668800000)"
    by (simp add: formatPostDate_def post_with_def)
  have r: "sortedPosts sample_runtime [?o, ?u] = [?u, ?o]"
    using u o by (simp add: sortedPosts_def array_sort_def sort_compare_def compare_posts_def)
  show ?thesis
    unfolding r using l f by (simp add: post_with_def)
qed

section \<open>Properties of paths and of the preview server\<close>

lemma split_slash_nonempty: "split_slash s \<noteq> []"
  by (induction s) (auto split: list.splits)


lemma split_slash_plain: "CHR ''/'' \<notin> set s \<Longrightarrow> split_slash s = [s]"
  by (induction s) auto

lemma split_slash_append:
  "split_slash (a @ CHR ''/'' # b) = split_slash a @ split_slash b"
  using split_slash_nonempty
  by (induction a) (auto split: list.splits)

lemma segments_append: "segments (a @ CHR ''/'' # b) = segments a @ segments b"
  by (simp add: segments_def split_slash_append)

lemma segments_slash: "segments (CHR ''/'' # b) = segments b"
  using segments_append[of "[]" b] by (simp add: segments_def)




lemma join_slash_empty: "\<forall>c \<in> set cs. clean_seg c \<Longrightarrow> join_slash cs = [] \<longleftrightarrow> cs = []"
  by (induction cs rule: join_slash.induct) (auto simp: clean_seg_def)


lemma norm_step_empty: "norm_step a res [] = res"
  by (simp add: norm_step_def)

lemma foldl_norm_segments:
  "foldl (norm_step a) res (split_slash p) = foldl (norm_step a) res (segments p)"
proof -
  have "foldl (norm_step a) res xs = foldl (norm_step a) res (filter (\<lambda>s. s \<noteq> []) xs)" for xs
    by (induction xs arbitrary: res) (auto simp: norm_step_empty)
  then show ?thesis by (simp add: segments_def)
qed

lemma foldl_norm_clean:
  "\<forall>c \<in> set cs. clean_seg c \<Longrightarrow> foldl (norm_step a) res cs = rev cs @ res"
  by (induction cs arbitrary: res) (auto simp: norm_step_def clean_seg_def)

lemma norm_step_keeps_clean:
  assumes "\<forall>c \<in> set res. clean_seg c" and "CHR ''/'' \<notin> set seg"
  shows "\<forall>c \<in> set (norm_step False res seg). clean_seg c"
  using assms by (cases res) (auto simp: norm_step_def clean_seg_def)

lemma foldl_norm_keeps_clean:
  assumes "\<forall>c \<in> set res. clean_seg c" and "\<forall>s \<in> set segs. CHR ''/'' \<notin> set s"
  shows "\<forall>c \<in> set (foldl (norm_step False) res segs). clean_seg c"
  using assms
proof (induction segs arbitrary: res)
  case Nil
  then show ?case by simp
next
  case (Cons s segs)
  have "\<forall>c \<in> set (norm_step False res s). clean_seg c"
    using Cons.prems by (intro norm_step_keeps_clean) auto
  then show ?case using Cons.IH Cons.prems(2) by simp
qed







lemmas path_eval =
  normalize_def normalizeString_def norm_step_def path_join_def



text \<open>The answer 403 is given to a path name that normalizes to \<open>..\<close>; such a path
  name does not start with \<open>/\<close>.\<close>

lemma handleRequest_forbidden_example:
  "status (handleRequest ''/srv/site/public'' sample_disk ''a/../..'') = 403"
  by (simp add: handleRequest_def path_eval)

section \<open>Properties of the build\<close>

lemma clean_seg_plain: "clean_seg s \<Longrightarrow> plain_seg s"
  by (simp add: clean_seg_def plain_seg_def)

lemma segments_plain_seg: "plain_seg s \<Longrightarrow> segments s = [s]"
  by (simp add: segments_def plain_seg_def split_slash_plain)

lemma segments_join_plain:
  "\<forall>c \<in> set cs. plain_seg c \<Longrightarrow> segments (join_slash cs) = cs"
proof (induction cs rule: join_slash.induct)
  case 1
  show ?case by (simp add: segments_def)
next
  case (2 x)
  then show ?case by (simp add: segments_plain_seg)
next
  case (3 x y ys)
  then show ?case by (simp add: segments_append segments_plain_seg)
qed

lemma segments_absolute:
  "\<forall>c \<in> set cs. plain_seg c \<Longrightarrow> segments (absolute_path cs) = cs"
  by (simp add: absolute_path_def segments_slash segments_join_plain)

lemma absolute_path_inj:
  assumes "\<forall>c \<in> set cs. plain_seg c" "\<forall>c \<in> set ds. plain_seg c"
  shows "absolute_path cs = absolute_path ds \<longleftrightarrow> cs = ds"
  using segments_absolute[OF assms(1)] segments_absolute[OF assms(2)] by metis

lemma join_slash_last_plain:
  assumes "cs \<noteq> []" "\<forall>c \<in> set cs. plain_seg c"
  shows "join_slash cs \<noteq> [] \<and> last (join_slash cs) \<noteq> CHR ''/''"
  using assms
proof (induction cs rule: join_slash.induct)
  case 1
  then show ?case by simp
next
  case (2 x)
  then have x: "x \<noteq> []" "CHR ''/'' \<notin> set x" by (simp_all add: plain_seg_def)
  then have "last x \<noteq> CHR ''/''" by (metis last_in_set)
  then show ?case using x by simp
next
  case (3 x y ys)
  then show ?case by simp
qed

text \<open>\<open>path.join\<close> of an absolute normalized path and slash-free arguments\<close>

lemma path_join_absolute:
  assumes rs: "\<forall>c \<in> set rs. clean_seg c"
    and xs: "\<forall>x \<in> set xs. CHR ''/'' \<notin> set x"
  shows "path_join (absolute_path rs # xs) =
           absolute_path (rev (foldl (norm_step False) (rev rs) (filter (\<lambda>a. a \<noteq> []) xs)))"
proof -
  let ?R = "absolute_path rs"
  let ?ys = "filter (\<lambda>a. a \<noteq> []) xs"
  let ?joined = "join_slash (?R # ?ys)"
  let ?st = "foldl (norm_step False) (rev rs) ?ys"
  have ys: "\<forall>y \<in> set ?ys. plain_seg y" using xs by (auto simp: plain_seg_def)
  have rsp: "\<forall>c \<in> set rs. plain_seg c" using rs by (auto dest: clean_seg_plain)
  have pj: "path_join (?R # xs) = normalize ?joined"
    by (simp add: path_join_def absolute_path_def)
  have j: "?joined = ?R \<and> ?ys = [] \<or> ?joined = ?R @ CHR ''/'' # join_slash ?ys \<and> ?ys \<noteq> []"
    by (cases ?ys) auto
  have seg: "segments ?joined = rs @ ?ys"
    using j segments_absolute[OF rsp] segments_join_plain[OF ys]
    by (auto simp: segments_append)
  have q: "normalizeString ?joined False = join_slash (rev ?st)"
    unfolding normalizeString_def foldl_norm_segments seg
    by (simp add: foldl_norm_clean[OF rs])
  have clean: "\<forall>c \<in> set ?st. clean_seg c"
    using foldl_norm_keeps_clean[of "rev rs" ?ys] rs ys by (auto simp: plain_seg_def)
  then have clean': "\<forall>c \<in> set (rev ?st). clean_seg c" by simp
  have hdj: "?joined \<noteq> []" "hd ?joined = CHR ''/''"
    using j by (auto simp: absolute_path_def)
  have trailing: "last ?joined = CHR ''/'' \<Longrightarrow> join_slash (rev ?st) = []"
  proof -
    assume l: "last ?joined = CHR ''/''"
    have "?ys = []"
    proof (rule ccontr)
      assume ne: "?ys \<noteq> []"
      then have "?joined = ?R @ CHR ''/'' # join_slash ?ys" using j by auto
      moreover have "join_slash ?ys \<noteq> [] \<and> last (join_slash ?ys) \<noteq> CHR ''/''"
        using join_slash_last_plain[OF ne ys] .
      ultimately show False using l by simp
    qed
    moreover have "rs = []"
    proof (rule ccontr)
      assume ne: "rs \<noteq> []"
      have "last ?joined = last (join_slash rs)"
        using \<open>?ys = []\<close> j join_slash_last_plain[OF ne rsp] by (auto simp: absolute_path_def)
      then show False using l join_slash_last_plain[OF ne rsp] by simp
    qed
    ultimately show ?thesis by simp
  qed
  have "normalize ?joined = absolute_path (rev ?st)"
  proof (cases "join_slash (rev ?st) = []")
    case True
    then have "rev ?st = []" using join_slash_empty[OF clean'] by simp
    then show ?thesis using True q hdj
      by (simp add: normalize_def Let_def absolute_path_def)
  next
    case False
    then have "last ?joined \<noteq> CHR ''/''" using trailing by blast
    then show ?thesis using False q hdj
      by (simp add: normalize_def Let_def absolute_path_def)
  qed
  then show ?thesis using pj by simp
qed

lemma path_join_clean:
  assumes rs: "\<forall>c \<in> set rs. clean_seg c" and xs: "\<forall>x \<in> set xs. clean_seg x"
  shows "path_join (absolute_path rs # xs) = absolute_path (rs @ xs)"
proof -
  have noslash: "\<forall>x \<in> set xs. CHR ''/'' \<notin> set x" using xs by (auto simp: clean_seg_def)
  have ne: "filter (\<lambda>a. a \<noteq> []) xs = xs" using xs by (auto simp: clean_seg_def filter_id_conv)
  show ?thesis
    unfolding path_join_absolute[OF rs noslash] ne
    by (simp add: foldl_norm_clean[OF xs])
qed

lemma join_slash_snoc: "cs \<noteq> [] \<Longrightarrow> join_slash (cs @ [x]) = join_slash cs @ CHR ''/'' # x"
  by (induction cs rule: join_slash.induct) auto

lemma absolute_path_snoc:
  "cs \<noteq> [] \<Longrightarrow> absolute_path (cs @ [x]) = absolute_path cs @ CHR ''/'' # x"
  by (simp add: absolute_path_def join_slash_snoc)

lemma clean_literals:
  "clean_seg ''public''" "clean_seg ''writing''" "clean_seg ''theme''" "clean_seg ''posts''"
  "clean_seg ''index.html''" "clean_seg ''about.html''" "clean_seg ''404.html''"
  by (simp_all add: clean_seg_def)

lemma PUBLIC_DIR_absolute:
  assumes "\<forall>c \<in> set rs. clean_seg c"
  shows "PUBLIC_DIR (absolute_path rs) = absolute_path (rs @ [''public''])"
  unfolding PUBLIC_DIR_def using path_join_clean[OF assms, of "[''public'']"]
  by (simp add: clean_literals)

lemma WRITING_DIR_absolute:
  assumes "\<forall>c \<in> set rs. clean_seg c"
  shows "WRITING_DIR (absolute_path rs) = absolute_path (rs @ [''writing''])"
  unfolding WRITING_DIR_def using path_join_clean[OF assms, of "[''writing'']"]
  by (simp add: clean_literals)

lemma slug_html_clean: "CHR ''/'' \<notin> set s \<Longrightarrow> clean_seg (s @ ''.html'')"
  by (cases s) (auto simp: clean_seg_def)

lemma slug_segments_clean:
  "CHR ''/'' \<notin> set s \<Longrightarrow> \<forall>c \<in> set (slug_segments s). clean_seg c"
  by (auto simp: slug_segments_def clean_seg_def)

lemma post_dir_absolute:
  assumes rs: "\<forall>c \<in> set rs. clean_seg c" and s: "CHR ''/'' \<notin> set s"
  shows "path_join [PUBLIC_DIR (absolute_path rs), POSTS_SUBDIR, s] =
           absolute_path (rs @ [''public''] @ slug_segments s)"
proof -
  have p: "\<forall>c \<in> set (rs @ [''public'']). clean_seg c" using rs by (simp add: clean_literals)
  have x: "\<forall>x \<in> set [''posts'', s]. CHR ''/'' \<notin> set x" using s by simp
  show ?thesis
    unfolding PUBLIC_DIR_absolute[OF rs] POSTS_SUBDIR_def path_join_absolute[OF p x]
    by (auto simp: slug_segments_def norm_step_def)
qed

lemma post_output_path_absolute:
  assumes rs: "\<forall>c \<in> set rs. clean_seg c" and s: "CHR ''/'' \<notin> set (slug doc)"
  shows "post_output_path (absolute_path rs) doc =
           absolute_path (rs @ [''public''] @ slug_segments (slug doc) @ [''index.html''])"
proof -
  have p: "\<forall>c \<in> set (rs @ [''public''] @ slug_segments (slug doc)). clean_seg c"
    using rs slug_segments_clean[OF s] by (auto simp: clean_literals)
  show ?thesis
    unfolding post_output_path_def post_dir_absolute[OF rs s]
    using path_join_clean[OF p, of "[''index.html'']"] by (simp add: clean_literals)
qed

lemma bare_path_absolute:
  assumes rs: "\<forall>c \<in> set rs. clean_seg c" and s: "CHR ''/'' \<notin> set s"
  shows "path_join [PUBLIC_DIR (absolute_path rs), POSTS_SUBDIR, s @ ''.html''] =
           absolute_path (rs @ [''public'', ''posts'', s @ ''.html''])"
proof -
  have p: "\<forall>c \<in> set (rs @ [''public'']). clean_seg c" using rs by (simp add: clean_literals)
  have x: "\<forall>x \<in> set [''posts'', s @ ''.html'']. clean_seg x"
    using slug_html_clean[OF s] by (simp add: clean_literals)
  show ?thesis
    unfolding PUBLIC_DIR_absolute[OF rs] POSTS_SUBDIR_def
    using path_join_clean[OF p x] by simp
qed

lemma clean_all_plain: "\<forall>c \<in> set cs. clean_seg c \<Longrightarrow> \<forall>c \<in> set cs. plain_seg c"
  by (auto dest: clean_seg_plain)

lemma post_output_not_bare:
  assumes rs: "\<forall>c \<in> set rs. clean_seg c" and s: "CHR ''/'' \<notin> set (slug doc)"
  shows "post_output_path (absolute_path rs) doc \<noteq>
           path_join [PUBLIC_DIR (absolute_path rs), POSTS_SUBDIR, slug doc @ ''.html'']"
proof -
  let ?a = "rs @ [''public''] @ slug_segments (slug doc) @ [''index.html'']"
  let ?b = "rs @ [''public'', ''posts'', slug doc @ ''.html'']"
  have a: "\<forall>c \<in> set ?a. plain_seg c"
    using rs slug_segments_clean[OF s] by (intro clean_all_plain) (auto simp: clean_literals)
  have b: "\<forall>c \<in> set ?b. plain_seg c"
    using rs slug_html_clean[OF s] by (intro clean_all_plain) (auto simp: clean_literals)
  have "?a \<noteq> ?b" by (auto simp: slug_segments_def)
  then show ?thesis
    unfolding post_output_path_absolute[OF rs s] bare_path_absolute[OF rs s]
    using absolute_path_inj[OF a b] by simp
qed

lemma post_output_literal:
  assumes rs: "\<forall>c \<in> set rs. clean_seg c" and s: "clean_seg (slug doc)"
  shows "post_output_path (absolute_path rs) doc =
           PUBLIC_DIR (absolute_path rs) @ ''/posts/'' @ slug doc @ ''/index.html''"
proof -
  have ns: "CHR ''/'' \<notin> set (slug doc)" using s by (simp add: clean_seg_def)
  have seg: "slug_segments (slug doc) = [''posts'', slug doc]"
    using s by (auto simp: slug_segments_def clean_seg_def)
  have "absolute_path (rs @ [''public''] @ [''posts'', slug doc] @ [''index.html'']) =
        absolute_path (rs @ [''public'']) @ ''/posts/'' @ slug doc @ ''/index.html''"
    using absolute_path_snoc[of "rs @ [''public'']" "''posts''"]
      absolute_path_snoc[of "rs @ [''public'', ''posts'']" "slug doc"]
      absolute_path_snoc[of "rs @ [''public'', ''posts'', slug doc]" "''index.html''"]
    by simp
  then show ?thesis
    unfolding post_output_path_absolute[OF rs ns] seg PUBLIC_DIR_absolute[OF rs] by simp
qed

lemma last_component_no_slash: "CHR ''/'' \<notin> set (last_component p)"
  by (auto simp: last_component_def dest: set_takeWhileD)

lemma basename_no_slash: "CHR ''/'' \<notin> set (basename p ext)"
  using last_component_no_slash[of p]
  by (auto simp: basename_def Let_def dest: in_set_takeD)

lemma parseDocument_slug: "parseDocument rt fs f = Inr d \<Longrightarrow> slug d = basename f ''.md''"
  by (auto simp: parseDocument_def split: sum.splits)

lemma map_result_elems:
  "map_result f xs = Inr ys \<Longrightarrow> \<forall>y \<in> set ys. \<exists>x \<in> set xs. f x = Inr y"
  by (induction xs arbitrary: ys) (auto simp: and_then_def split: sum.splits)

lemma parse_posts_slugs:
  assumes "parse_posts rt root fs = Inr posts"
  shows "\<forall>d \<in> set posts. CHR ''/'' \<notin> set (slug d)"
proof
  fix d assume d: "d \<in> set posts"
  from assms obtain postFiles where "map_result (parseDocument rt fs) postFiles = Inr posts"
    by (auto simp: parse_posts_def and_then_def split: sum.splits)
  from map_result_elems[OF this] d obtain f where "parseDocument rt fs f = Inr d" by blast
  then show "CHR ''/'' \<notin> set (slug d)"
    using basename_no_slash by (simp add: parseDocument_slug)
qed

lemma writeFile_log: "writeFile st p t = Inr st' \<Longrightarrow> snd st' = snd st @ [Wrote p]"
  by (auto simp: writeFile_def and_then_def split: sum.splits)

lemma copyFile_log: "copyFile st src dest = Inr st' \<Longrightarrow> snd st' = snd st @ [Copied src dest]"
  by (auto simp: copyFile_def and_then_def split: sum.splits)

lemma render_posts_log:
  "render_posts rt root st docs = Inr st' \<Longrightarrow>
     snd st' = snd st @ map (\<lambda>d. Wrote (post_output_path root d)) docs"
proof (induction docs arbitrary: st)
  case Nil
  then show ?case by simp
next
  case (Cons d docs)
  from Cons.prems obtain html fs st1 where
    w: "writeFile (fs, snd st) (post_output_path root d) html = Inr st1"
    and r: "render_posts rt root st1 docs = Inr st'"
    by (auto simp: and_then_def split: sum.splits)
  show ?case using writeFile_log[OF w] Cons.IH[OF r] by simp
qed

lemma render_main_pages_log:
  assumes "render_main_pages rt root st posts = Inr st'"
  shows "snd st' = snd st @ [Wrote (path_join [PUBLIC_DIR root, ''index.html'']),
                             Wrote (path_join [PUBLIC_DIR root, ''about.html'']),
                             Wrote (path_join [PUBLIC_DIR root, ''404.html''])]"
proof -
  from assms obtain h1 st1 h2 st2 h3 where
    a: "writeFile st (path_join [PUBLIC_DIR root, ''index.html'']) h1 = Inr st1"
    and b: "writeFile st1 (path_join [PUBLIC_DIR root, ''about.html'']) h2 = Inr st2"
    and c: "writeFile st2 (path_join [PUBLIC_DIR root, ''404.html'']) h3 = Inr st'"
    unfolding render_main_pages_def and_then_def by (auto split: sum.splits)
  show ?thesis using writeFile_log[OF a] writeFile_log[OF b] writeFile_log[OF c] by simp
qed

lemma copy_static_assets_log:
  assumes "copy_static_assets root st = Inr st'"
  shows "snd st' = snd st @
           [Copied (path_join [THEME_DIR root, ''styles.css'']) (path_join [PUBLIC_DIR root, ''styles.css'']),
            Copied (path_join [THEME_DIR root, ''script.js'']) (path_join [PUBLIC_DIR root, ''script.js'']),
            Copied (path_join [THEME_DIR root, ''favicon.svg'']) (path_join [PUBLIC_DIR root, ''favicon.svg''])]"
proof -
  from assms obtain st1 st2 where
    a: "copyFile st (path_join [THEME_DIR root, ''styles.css'']) (path_join [PUBLIC_DIR root, ''styles.css'']) = Inr st1"
    and b: "copyFile st1 (path_join [THEME_DIR root, ''script.js'']) (path_join [PUBLIC_DIR root, ''script.js'']) = Inr st2"
    and c: "copyFile st2 (path_join [THEME_DIR root, ''favicon.svg'']) (path_join [PUBLIC_DIR root, ''favicon.svg'']) = Inr st'"
    unfolding copy_static_assets_def and_then_def by (auto split: sum.splits)
  show ?thesis using copyFile_log[OF a] copyFile_log[OF b] copyFile_log[OF c] by simp
qed

lemma buildSite_log:
  assumes "buildSite rt root fs0 = Inr st"
  shows "\<exists>fs1 fs2 posts.
           ensureDir fs0 (PUBLIC_DIR root) = Inr fs1
         \<and> ensureDir fs1 (path_join [PUBLIC_DIR root, POSTS_SUBDIR]) = Inr fs2
         \<and> parse_posts rt root fs2 = Inr posts
         \<and> snd st = map (\<lambda>d. Wrote (post_output_path root d)) posts @ main_actions root"
proof -
  from assms obtain fs1 fs2 posts st3 st4 where
    a: "ensureDir fs0 (PUBLIC_DIR root) = Inr fs1"
    and b: "ensureDir fs1 (path_join [PUBLIC_DIR root, POSTS_SUBDIR]) = Inr fs2"
    and c: "parse_posts rt root fs2 = Inr posts"
    and d: "render_posts rt root (fs2, []) posts = Inr st3"
    and e: "render_main_pages rt root st3 posts = Inr st4"
    and f: "copy_static_assets root st4 = Inr st"
    unfolding buildSite_def and_then_def by (auto split: sum.splits)
  have "snd st = map (\<lambda>d. Wrote (post_output_path root d)) posts @ main_actions root"
    using render_posts_log[OF d] render_main_pages_log[OF e] copy_static_assets_log[OF f]
    by (simp add: main_actions_def)
  then show ?thesis using a b c by blast
qed

lemma main_paths_absolute:
  assumes rs: "\<forall>c \<in> set rs. clean_seg c"
  shows "path_join [PUBLIC_DIR (absolute_path rs), ''index.html''] = absolute_path (rs @ [''public'', ''index.html''])"
    and "path_join [PUBLIC_DIR (absolute_path rs), ''about.html''] = absolute_path (rs @ [''public'', ''about.html''])"
    and "path_join [PUBLIC_DIR (absolute_path rs), ''404.html''] = absolute_path (rs @ [''public'', ''404.html''])"
proof -
  have p: "\<forall>c \<in> set (rs @ [''public'']). clean_seg c" using rs by (simp add: clean_literals)
  show "path_join [PUBLIC_DIR (absolute_path rs), ''index.html''] = absolute_path (rs @ [''public'', ''index.html''])"
    unfolding PUBLIC_DIR_absolute[OF rs] using path_join_clean[OF p, of "[''index.html'']"]
    by (simp add: clean_literals)
  show "path_join [PUBLIC_DIR (absolute_path rs), ''about.html''] = absolute_path (rs @ [''public'', ''about.html''])"
    unfolding PUBLIC_DIR_absolute[OF rs] using path_join_clean[OF p, of "[''about.html'']"]
    by (simp add: clean_literals)
  show "path_join [PUBLIC_DIR (absolute_path rs), ''404.html''] = absolute_path (rs @ [''public'', ''404.html''])"
    unfolding PUBLIC_DIR_absolute[OF rs] using path_join_clean[OF p, of "[''404.html'']"]
    by (simp add: clean_literals)
qed

lemma bare_literal:
  assumes rs: "\<forall>c \<in> set rs. clean_seg c"
  shows "PUBLIC_DIR (absolute_path rs) @ ''/posts/'' @ s @ ''.html'' =
           absolute_path (rs @ [''public'', ''posts'', s @ ''.html''])"
  using absolute_path_snoc[of "rs @ [''public'']" "''posts''"]
    absolute_path_snoc[of "rs @ [''public'', ''posts'']" "s @ ''.html''"]
  by (simp add: PUBLIC_DIR_absolute[OF rs])

lemma bare_never_written:
  assumes rs: "\<forall>c \<in> set rs. clean_seg c"
    and slugs: "\<forall>d \<in> set posts. clean_seg (slug d)"
    and s: "CHR ''/'' \<notin> set s"
  shows "Wrote (PUBLIC_DIR (absolute_path rs) @ ''/posts/'' @ s @ ''.html'')
           \<notin> set (map (\<lambda>d. Wrote (post_output_path (absolute_path rs) d)) posts
                    @ main_actions (absolute_path rs))"
proof -
  let ?b = "rs @ [''public'', ''posts'', s @ ''.html'']"
  have b: "\<forall>c \<in> set ?b. plain_seg c"
    using rs slug_html_clean[OF s] by (intro clean_all_plain) (auto simp: clean_literals)
  have post: "post_output_path (absolute_path rs) d \<noteq> absolute_path ?b" if "d \<in> set posts" for d
  proof -
    have cs: "clean_seg (slug d)" using slugs that by simp
    then have ns: "CHR ''/'' \<notin> set (slug d)" by (simp add: clean_seg_def)
    let ?a = "rs @ [''public''] @ slug_segments (slug d) @ [''index.html'']"
    have a: "\<forall>c \<in> set ?a. plain_seg c"
      using rs slug_segments_clean[OF ns] by (intro clean_all_plain) (auto simp: clean_literals)
    have "?a \<noteq> ?b" using cs by (auto simp: slug_segments_def clean_seg_def)
    then show ?thesis
      unfolding post_output_path_absolute[OF rs ns] using absolute_path_inj[OF a b] by simp
  qed
  have main: "absolute_path (rs @ [''public'', x]) \<noteq> absolute_path ?b" if "clean_seg x" for x
  proof -
    have a: "\<forall>c \<in> set (rs @ [''public'', x]). plain_seg c"
      using rs that by (intro clean_all_plain) (auto simp: clean_literals)
    show ?thesis using absolute_path_inj[OF a b] by simp
  qed
  have 1: "Wrote (absolute_path ?b)
             \<notin> set (map (\<lambda>d. Wrote (post_output_path (absolute_path rs) d)) posts)"
  proof
    assume "Wrote (absolute_path ?b)
              \<in> set (map (\<lambda>d. Wrote (post_output_path (absolute_path rs) d)) posts)"
    then obtain d where "d \<in> set posts"
      and "post_output_path (absolute_path rs) d = absolute_path ?b" by auto
    then show False using post by blast
  qed
  have 2: "Wrote (absolute_path ?b) \<notin> set (main_actions (absolute_path rs))"
    unfolding main_actions_def main_paths_absolute[OF rs]
    using main[of "''index.html''"] main[of "''about.html''"] main[of "''404.html''"]
    by (simp add: clean_literals)
  show ?thesis
    unfolding bare_literal[OF rs] using 1 2 by simp
qed

text \<open>
  C5.  In every build that completes, from a project root that is an absolute normalized
  path: the files written are one per parsed post, in the order of the posts, at the
  path \<open>path.join(PUBLIC_DIR, 'posts', slug, 'index.html')\<close>, followed by the three
  main pages.  That path is never the bare \<open>posts/<slug>.html\<close> of the post; for a slug
  that is an ordinary name it is literally \<open>PUBLIC_DIR/posts/<slug>/index.html\<close>; and
  when all slugs are ordinary names no file is written at \<open>posts/<slug>.html\<close> for any
  post.
\<close>

theorem buildSite_writes_each_post_page:
  assumes "buildSite rt root fs0 = Inr st"
    and "root = absolute_path rootSegments"
    and "\<forall>c \<in> set rootSegments. clean_seg c"
  shows "\<exists>fs1 fs2 posts.
           ensureDir fs0 (PUBLIC_DIR root) = Inr fs1
         \<and> ensureDir fs1 (path_join [PUBLIC_DIR root, POSTS_SUBDIR]) = Inr fs2
         \<and> parse_posts rt root fs2 = Inr posts
         \<and> snd st = map (\<lambda>d. Wrote (post_output_path root d)) posts @ main_actions root
         \<and> (\<forall>d \<in> set posts.
               post_output_path root d
                 \<noteq> path_join [PUBLIC_DIR root, POSTS_SUBDIR, slug d @ ''.html'']
             \<and> (clean_seg (slug d) \<longrightarrow>
                  post_output_path root d
                    = PUBLIC_DIR root @ ''/posts/'' @ slug d @ ''/index.html''))
         \<and> ((\<forall>d \<in> set posts. clean_seg (slug d)) \<longrightarrow>
              (\<forall>d \<in> set posts.
                 Wrote (PUBLIC_DIR root @ ''/posts/'' @ slug d @ ''.html'') \<notin> set (snd st)))"
proof -
  from buildSite_log[OF assms(1)] obtain fs1 fs2 posts where
    a: "ensureDir fs0 (PUBLIC_DIR root) = Inr fs1"
    and b: "ensureDir fs1 (path_join [PUBLIC_DIR root, POSTS_SUBDIR]) = Inr fs2"
    and c: "parse_posts rt root fs2 = Inr posts"
    and l: "snd st = map (\<lambda>d. Wrote (post_output_path root d)) posts @ main_actions root"
    by blast
  note rs = assms(3)
  have ns: "\<forall>d \<in> set posts. CHR ''/'' \<notin> set (slug d)" by (rule parse_posts_slugs[OF c])
  have p1: "\<forall>d \<in> set posts.
               post_output_path root d
                 \<noteq> path_join [PUBLIC_DIR root, POSTS_SUBDIR, slug d @ ''.html'']
             \<and> (clean_seg (slug d) \<longrightarrow>
                  post_output_path root d
                    = PUBLIC_DIR root @ ''/posts/'' @ slug d @ ''/index.html'')"
    unfolding assms(2) using ns post_output_not_bare[OF rs] post_output_literal[OF rs] by blast
  have p2: "(\<forall>d \<in> set posts. clean_seg (slug d)) \<longrightarrow>
              (\<forall>d \<in> set posts.
                 Wrote (PUBLIC_DIR root @ ''/posts/'' @ slug d @ ''.html'') \<notin> set (snd st))"
    unfolding l assms(2) using ns bare_never_written[OF rs] by blast
  show ?thesis using a b c l p1 p2 by blast
qed

lemmas build_eval =
  buildSite_def and_then_def ensureDir_def existsSync_def mkdirSync_recursive_def ancestors_def
  segments_def absolute_path_def PUBLIC_DIR_def WRITING_DIR_def THEME_DIR_def POSTS_SUBDIR_def
  path_join_def normalize_def normalizeString_def norm_step_def
  parse_posts_def getFilesWithExtension_def readdirSync_def suffix_to_prefix
  parseDocument_def readFileSync_def basename_def last_component_def
  property_def js_or_def strictly_true_def
  renderPost_def loadTemplate_def renderTemplate_def match_placeholder_def is_space_def
  generateHeadExtras_def post_output_path_def writeFile_def writeFileSync_def dirname_of_def
  render_main_pages_def renderIndex_def postListHtml_def post_list_item_def
  renderAbout_def replace_footer_def footerReplacement_def render404_def
  copy_static_assets_def copyFile_def

theorem buildSite_writes_each_post_page_witness:
  "\<exists>st posts.
     buildSite sample_runtime ''/site'' sample_site = Inr st
   \<and> map slug posts = [''hello-world'']
   \<and> snd st = map (\<lambda>d. Wrote (post_output_path ''/site'' d)) posts @ main_actions ''/site''
   \<and> snd st = [Wrote ''/site/public/posts/hello-world/index.html'',
          Wrote ''/site/public/index.html'', Wrote ''/site/public/about.html'',
          Wrote ''/site/public/404.html'',
          Copied ''/site/theme/styles.css'' ''/site/public/styles.css'',
          Copied ''/site/theme/script.js'' ''/site/public/script.js'',
          Copied ''/site/theme/favicon.svg'' ''/site/public/favicon.svg'']
   \<and> files (fst st) ''/site/public/posts/hello-world.html'' = None"
proof -
  have "\<exists>st. buildSite sample_runtime ''/site'' sample_site = Inr st
     \<and> snd st = [Wrote ''/site/public/posts/hello-world/index.html'',
          Wrote ''/site/public/index.html'', Wrote ''/site/public/about.html'',
          Wrote ''/site/public/404.html'',
          Copied ''/site/theme/styles.css'' ''/site/public/styles.css'',
          Copied ''/site/theme/script.js'' ''/site/public/script.js'',
          Copied ''/site/theme/favicon.svg'' ''/site/public/favicon.svg'']
     \<and> files (fst st) ''/site/public/posts/hello-world.html'' = None"
    by (simp add: build_eval sample_site_def sample_runtime_def sample_matter_def
          sortedPosts_def array_sort_def formatPostDate_def date_label_eq date_eval)
  then obtain st where b: "buildSite sample_runtime ''/site'' sample_site = Inr st"
    and l: "snd st = [Wrote ''/site/public/posts/hello-world/index.html'',
          Wrote ''/site/public/index.html'', Wrote ''/site/public/about.html'',
          Wrote ''/site/public/404.html'',
          Copied ''/site/theme/styles.css'' ''/site/public/styles.css'',
          Copied ''/site/theme/script.js'' ''/site/public/script.js'',
          Copied ''/site/theme/favicon.svg'' ''/site/public/favicon.svg'']"
    and n: "files (fst st) ''/site/public/posts/hello-world.html'' = None"
    by blast
  have r: "''/site'' = absolute_path [''site'']" by (simp add: absolute_path_def)
  have c: "\<forall>c \<in> set [''site'']. clean_seg c" by (simp add: clean_seg_def)
  from buildSite_writes_each_post_page [OF b r c]
  obtain fs2 posts where p: "parse_posts sample_runtime ''/site'' fs2 = Inr posts"
    and m: "snd st = map (\<lambda>d. Wrote (post_output_path ''/site'' d)) posts @ main_actions ''/site''"
    and lit: "\<forall>d \<in> set posts. clean_seg (slug d) \<longrightarrow>
                post_output_path ''/site'' d
                  = PUBLIC_DIR ''/site'' @ ''/posts/'' @ slug d @ ''/index.html''"
    by blast
  have "length (snd st) = length posts + 6"
    unfolding m by (simp add: main_actions_def)
  moreover have "length (snd st) = 7" unfolding l by simp
  ultimately have len: "length posts = 1" by simp
  then obtain d where d: "posts = [d]" by (cases posts) auto
  have "hd (snd st) = Wrote (post_output_path ''/site'' d)" unfolding m d by simp
  moreover have "hd (snd st) = Wrote ''/site/public/posts/hello-world/index.html''"
    unfolding l by simp
  ultimately have o: "post_output_path ''/site'' d = ''/site/public/posts/hello-world/index.html''"
    by simp
  have ns: "CHR ''/'' \<notin> set (slug d)" using parse_posts_slugs[OF p] d by simp
  have pub: "PUBLIC_DIR ''/site'' = ''/site/public''"
    by (simp add: PUBLIC_DIR_def path_eval segments_def)
  have "slug d = ''hello-world''"
  proof -
    have "post_output_path ''/site'' d
            = absolute_path ([''site''] @ [''public''] @ slug_segments (slug d) @ [''index.html''])"
      using post_output_path_absolute[OF c ns] r by simp
    then have "absolute_path ([''site''] @ [''public''] @ slug_segments (slug d) @ [''index.html''])
            = absolute_path [''site'', ''public'', ''posts'', ''hello-world'', ''index.html'']"
      using o by (simp add: absolute_path_def)
    moreover have "\<forall>x \<in> set ([''site''] @ [''public''] @ slug_segments (slug d) @ [''index.html'']).
                     plain_seg x"
      using slug_segments_clean[OF ns] by (intro clean_all_plain) (auto simp: clean_seg_def)
    moreover have "\<forall>x \<in> set [''site'', ''public'', ''posts'', ''hello-world'', ''index.html''].
                     plain_seg x"
      by (simp add: plain_seg_def)
    ultimately have "[''site''] @ [''public''] @ slug_segments (slug d) @ [''index.html'']
            = [''site'', ''public'', ''posts'', ''hello-world'', ''index.html'']"
      using absolute_path_inj by blast
    then show ?thesis by (auto simp: slug_segments_def split: if_splits)
  qed
  then have sl: "map slug posts = [''hello-world'']" using d by simp
  show ?thesis
    by (rule exI[of _ st], rule exI[of _ posts]) (intro conjI b sl m l n)
qed

lemma ancestors_absolute:
  assumes "\<forall>c \<in> set cs. plain_seg c"
    and "q \<in> set (ancestors (absolute_path cs) @ [absolute_path cs])"
  shows "\<exists>ds. q = absolute_path ds \<and> (\<forall>c \<in> set ds. plain_seg c)
            \<and> (ds = cs \<or> length ds < length cs)"
proof (cases "q = absolute_path cs")
  case True
  then show ?thesis using assms(1) by blast
next
  case False
  then obtain k where k: "k < length cs" and q: "q = absolute_path (take k cs)"
    using assms(2) by (auto simp: ancestors_def segments_absolute[OF assms(1)])
  have "\<forall>c \<in> set (take k cs). plain_seg c" using assms(1) by (auto dest: in_set_takeD)
  then show ?thesis using k q by auto
qed

lemma ensureDir_result:
  assumes "ensureDir fs p = Inr fs'"
  shows "files fs' = files fs \<and> listing fs' = listing fs
       \<and> dirs fs \<subseteq> dirs fs' \<and> dirs fs' \<subseteq> dirs fs \<union> set (ancestors p @ [p])"
  using assms
  by (auto simp: ensureDir_def mkdirSync_recursive_def split: if_splits)

lemma posts_source_absolute:
  assumes rs: "\<forall>c \<in> set rs. clean_seg c"
  shows "path_join [WRITING_DIR (absolute_path rs), POSTS_SUBDIR] =
           absolute_path (rs @ [''writing'', ''posts''])"
proof -
  have p: "\<forall>c \<in> set (rs @ [''writing'']). clean_seg c" using rs by (simp add: clean_literals)
  show ?thesis
    unfolding WRITING_DIR_absolute[OF rs] POSTS_SUBDIR_def
    using path_join_clean[OF p, of "[''posts'']"] by (simp add: clean_literals)
qed

lemma posts_output_absolute:
  assumes rs: "\<forall>c \<in> set rs. clean_seg c"
  shows "path_join [PUBLIC_DIR (absolute_path rs), POSTS_SUBDIR] =
           absolute_path (rs @ [''public'', ''posts''])"
proof -
  have p: "\<forall>c \<in> set (rs @ [''public'']). clean_seg c" using rs by (simp add: clean_literals)
  show ?thesis
    unfolding PUBLIC_DIR_absolute[OF rs] POSTS_SUBDIR_def
    using path_join_clean[OF p, of "[''posts'']"] by (simp add: clean_literals)
qed

lemma posts_source_not_created:
  assumes rs: "\<forall>c \<in> set rs. clean_seg c"
  shows "absolute_path (rs @ [''writing'', ''posts''])
           \<notin> set (ancestors (absolute_path (rs @ [''public''])) @ [absolute_path (rs @ [''public''])])"
    and "absolute_path (rs @ [''writing'', ''posts''])
           \<notin> set (ancestors (absolute_path (rs @ [''public'', ''posts'']))
                    @ [absolute_path (rs @ [''public'', ''posts''])])"
proof -
  let ?w = "rs @ [''writing'', ''posts'']"
  have w: "\<forall>c \<in> set ?w. plain_seg c"
    using rs by (intro clean_all_plain) (auto simp: clean_literals)
  have p1: "\<forall>c \<in> set (rs @ [''public'']). plain_seg c"
    using rs by (intro clean_all_plain) (auto simp: clean_literals)
  have p2: "\<forall>c \<in> set (rs @ [''public'', ''posts'']). plain_seg c"
    using rs by (intro clean_all_plain) (auto simp: clean_literals)
  show "absolute_path ?w
           \<notin> set (ancestors (absolute_path (rs @ [''public''])) @ [absolute_path (rs @ [''public''])])"
  proof
    assume "absolute_path ?w
           \<in> set (ancestors (absolute_path (rs @ [''public''])) @ [absolute_path (rs @ [''public''])])"
    from ancestors_absolute[OF p1 this] obtain ds where
      "absolute_path ?w = absolute_path ds" "\<forall>c \<in> set ds. plain_seg c"
      "ds = rs @ [''public''] \<or> length ds < length (rs @ [''public''])" by blast
    then show False using absolute_path_inj[OF w, of ds] by auto
  qed
  show "absolute_path ?w
           \<notin> set (ancestors (absolute_path (rs @ [''public'', ''posts'']))
                    @ [absolute_path (rs @ [''public'', ''posts''])])"
  proof
    assume "absolute_path ?w
           \<in> set (ancestors (absolute_path (rs @ [''public'', ''posts'']))
                    @ [absolute_path (rs @ [''public'', ''posts''])])"
    from ancestors_absolute[OF p2 this] obtain ds where
      "absolute_path ?w = absolute_path ds" "\<forall>c \<in> set ds. plain_seg c"
      "ds = rs @ [''public'', ''posts''] \<or> length ds < length (rs @ [''public'', ''posts''])"
      by blast
    then show False using absolute_path_inj[OF w, of ds] by auto
  qed
qed

lemma postListHtml_empty: "postListHtml rt [] = []"
  by (simp add: postListHtml_def sortedPosts_def array_sort_def)

lemma renderIndex_empty_list:
  assumes "renderIndex rt root fs [] = Inr html"
  shows "\<exists>baseTemplate indexTemplate t d.
           loadTemplate root fs ''base.html'' = Inr baseTemplate
         \<and> loadTemplate root fs ''index.html'' = Inr indexTemplate
         \<and> html = renderTemplate baseTemplate
                    [(''title'', t), (''description'', d), (''head_extra'', []),
                     (''body_class'', ''centered-list''),
                     (''content'', renderTemplate indexTemplate [(''post_list'', [])])]"
  using assms
  unfolding renderIndex_def and_then_def Let_def postListHtml_empty
  by (auto split: sum.splits if_splits)

text \<open>
  C10.  When the posts source directory does not exist and the two output directories
  can be made: the discovery of posts returns the empty list without throwing, no post
  is parsed and no post page is written, and the build is steps 4 and 5 on an empty list
  of posts, so it completes whenever the main pages and the assets can be produced, and
  then it has written the three main pages and copied the three assets and nothing
  else.  The list of the index is empty: the \<open>post_list\<close> placeholder of the index
  template is replaced by the empty string.
\<close>

theorem buildSite_without_posts_directory:
  assumes "root = absolute_path rootSegments"
    and "\<forall>c \<in> set rootSegments. clean_seg c"
    and "\<not> existsSync fs0 (path_join [WRITING_DIR root, POSTS_SUBDIR])"
    and "ensureDir fs0 (PUBLIC_DIR root) = Inr fs1"
    and "ensureDir fs1 (path_join [PUBLIC_DIR root, POSTS_SUBDIR]) = Inr fs2"
  shows "getFilesWithExtension fs2 (path_join [WRITING_DIR root, POSTS_SUBDIR]) ''.md'' = Inr []
       \<and> parse_posts rt root fs2 = Inr []
       \<and> render_posts rt root (fs2, []) [] = Inr (fs2, [])
       \<and> buildSite rt root fs0 =
           and_then (render_main_pages rt root (fs2, []) []) (copy_static_assets root)
       \<and> (\<forall>st. buildSite rt root fs0 = Inr st \<longrightarrow> snd st = main_actions root)
       \<and> postListHtml rt [] = []
       \<and> (\<forall>st html. buildSite rt root fs0 = Inr st
             \<and> renderIndex rt root fs2 [] = Inr html \<longrightarrow>
             (\<exists>baseTemplate indexTemplate t d.
                html = renderTemplate baseTemplate
                         [(''title'', t), (''description'', d), (''head_extra'', []),
                          (''body_class'', ''centered-list''),
                          (''content'', renderTemplate indexTemplate [(''post_list'', [])])]))"
proof -
  note rs = assms(2)
  let ?src = "path_join [WRITING_DIR root, POSTS_SUBDIR]"
  have src: "?src = absolute_path (rootSegments @ [''writing'', ''posts''])"
    unfolding assms(1) by (rule posts_source_absolute[OF rs])
  have pub: "PUBLIC_DIR root = absolute_path (rootSegments @ [''public''])"
    unfolding assms(1) by (rule PUBLIC_DIR_absolute[OF rs])
  have out: "path_join [PUBLIC_DIR root, POSTS_SUBDIR] = absolute_path (rootSegments @ [''public'', ''posts''])"
    unfolding assms(1) by (rule posts_output_absolute[OF rs])
  have e1: "\<not> existsSync fs1 ?src"
    using assms(3) ensureDir_result[OF assms(4)] posts_source_not_created(1)[OF rs]
    unfolding src pub existsSync_def by auto
  have e2: "\<not> existsSync fs2 ?src"
    using e1 ensureDir_result[OF assms(5)] posts_source_not_created(2)[OF rs]
    unfolding src out existsSync_def by auto
  have g: "getFilesWithExtension fs2 ?src ''.md'' = Inr []"
    using e2 by (simp add: getFilesWithExtension_def)
  have p: "parse_posts rt root fs2 = Inr []"
    using g by (simp add: parse_posts_def and_then_def)
  have r: "render_posts rt root (fs2, []) [] = Inr (fs2, [])" by simp
  have b: "buildSite rt root fs0 =
           and_then (render_main_pages rt root (fs2, []) []) (copy_static_assets root)"
    using assms(4,5) p by (simp add: buildSite_def and_then_def)
  have l: "\<forall>st. buildSite rt root fs0 = Inr st \<longrightarrow> snd st = main_actions root"
  proof (intro allI impI)
    fix st assume s: "buildSite rt root fs0 = Inr st"
    from buildSite_log[OF s] obtain fs1' fs2' posts where
      "ensureDir fs0 (PUBLIC_DIR root) = Inr fs1'"
      "ensureDir fs1' (path_join [PUBLIC_DIR root, POSTS_SUBDIR]) = Inr fs2'"
      "parse_posts rt root fs2' = Inr posts"
      "snd st = map (\<lambda>d. Wrote (post_output_path root d)) posts @ main_actions root"
      by blast
    then show "snd st = main_actions root" using assms(4,5) p by simp
  qed
  have i: "\<forall>st html. buildSite rt root fs0 = Inr st
             \<and> renderIndex rt root fs2 [] = Inr html \<longrightarrow>
             (\<exists>baseTemplate indexTemplate t d.
                html = renderTemplate baseTemplate
                         [(''title'', t), (''description'', d), (''head_extra'', []),
                          (''body_class'', ''centered-list''),
                          (''content'', renderTemplate indexTemplate [(''post_list'', [])])])"
    using renderIndex_empty_list by blast
  show ?thesis using g p r b l postListHtml_empty i by blast
qed

theorem buildSite_without_posts_directory_witness:
  "\<not> existsSync sample_site_without_posts (path_join [WRITING_DIR ''/site'', POSTS_SUBDIR])
   \<and> (\<exists>st. buildSite sample_runtime ''/site'' sample_site_without_posts = Inr st
         \<and> snd st = main_actions ''/site''
         \<and> files (fst st) ''/site/public/index.html''
             = Some ''<title>Ink Dreams - Notes</title><body class=centered-list><ul></ul></body>'')"
proof -
  have r: "''/site'' = absolute_path [''site'']" by (simp add: absolute_path_def)
  have c: "\<forall>c \<in> set [''site'']. clean_seg c" by (simp add: clean_seg_def)
  have e: "\<not> existsSync sample_site_without_posts (path_join [WRITING_DIR ''/site'', POSTS_SUBDIR])"
    by (simp add: existsSync_def sample_site_without_posts_def WRITING_DIR_def POSTS_SUBDIR_def
          path_eval)
  have "\<exists>fs1 fs2. ensureDir sample_site_without_posts (PUBLIC_DIR ''/site'') = Inr fs1
          \<and> ensureDir fs1 (path_join [PUBLIC_DIR ''/site'', POSTS_SUBDIR]) = Inr fs2"
    by (simp add: ensureDir_def existsSync_def mkdirSync_recursive_def ancestors_def
          segments_def absolute_path_def PUBLIC_DIR_def POSTS_SUBDIR_def path_eval
          sample_site_without_posts_def)
  then obtain fs1 fs2 where
    d1: "ensureDir sample_site_without_posts (PUBLIC_DIR ''/site'') = Inr fs1"
    and d2: "ensureDir fs1 (path_join [PUBLIC_DIR ''/site'', POSTS_SUBDIR]) = Inr fs2"
    by blast
  have "\<exists>st. buildSite sample_runtime ''/site'' sample_site_without_posts = Inr st
     \<and> files (fst st) ''/site/public/index.html''
         = Some ''<title>Ink Dreams - Notes</title><body class=centered-list><ul></ul></body>''"
    by (simp add: build_eval sample_site_without_posts_def sample_runtime_def
          sortedPosts_def array_sort_def)
  then obtain st where b: "buildSite sample_runtime ''/site'' sample_site_without_posts = Inr st"
    and i: "files (fst st) ''/site/public/index.html''
         = Some ''<title>Ink Dreams - Notes</title><body class=centered-list><ul></ul></body>''"
    by blast
  from buildSite_without_posts_directory [OF r c e d1 d2, of sample_runtime]
  have "\<forall>st. buildSite sample_runtime ''/site'' sample_site_without_posts = Inr st
          \<longrightarrow> snd st = main_actions ''/site''"
    by blast
  then have "snd st = main_actions ''/site''" using b by blast
  then show ?thesis using e b i by blast
qed

end
